theory Spec2Isabelle
  imports Complex_Main "HOL-Library.Sublist" "HOL-Library.Multiset"
begin

section \<open>Data model\<close>

text \<open>
  The notebook \<^verbatim>\<open>project_play.ipynb\<close> reads JSON records, registers them as views of
  the query engine, derives five tables with SQL statements and writes each table as a
  partitioned columnar data set. Every column is nullable: SQL \<^verbatim>\<open>NULL\<close> is \<open>None\<close>.
\<close>

text \<open>A record of \<^verbatim>\<open>song_data\<close>, with the columns the notebook selects.\<close>

record song_rec =
  song_id :: "string option"
  title :: "string option"
  artist_id :: "string option"
  year :: "int option"
  duration :: "rat option"
  artist_name :: "string option"
  artist_location :: "string option"
  artist_latitude :: "rat option"
  artist_longitude :: "rat option"

text \<open>A record of the activity log, with the columns the notebook selects.\<close>

record log_rec =
  userId :: "string option"
  firstName :: "string option"
  lastName :: "string option"
  gender :: "string option"
  level :: "string option"
  page :: "string option"
  ts :: "int option"
  sessionId :: "int option"
  userAgent :: "string option"
  artist :: "string option"

text \<open>The rows of the derived tables; a field \<open>t_c\<close> is column \<open>c\<close> of table \<open>t\<close>.\<close>

record songs_row =
  songs_song_id :: "string option"
  songs_title :: "string option"
  songs_artist_id :: "string option"
  songs_year :: "int option"
  songs_duration :: "rat option"

record artists_row =
  artists_artist_id :: "string option"
  artists_name :: "string option"
  artists_location :: "string option"
  artists_latitude :: "rat option"
  artists_longitude :: "rat option"

record users_row =
  users_user_id :: "string option"
  users_first_name :: "string option"
  users_last_name :: "string option"
  users_gender :: "string option"
  users_level :: "string option"

record time_row =
  time_start_time :: "int option"
  time_hour :: "int option"
  time_day :: "int option"
  time_week :: "int option"
  time_month :: "int option"
  time_year :: "int option"
  time_weekday :: "int option"

record songplays_row =
  songplays_start_time :: "int option"
  songplays_year :: "int option"
  songplays_month :: "int option"
  songplays_user_id :: "string option"
  songplays_level :: "string option"
  songplays_song_id :: "string option"
  songplays_artist_id :: "string option"
  songplays_session_id :: "int option"
  songplays_location :: "string option"
  songplays_user_agent :: "string option"

text \<open>What a statement of the notebook can raise.\<close>

datatype error =
    TableAlreadyExists string
  | TableNotFound string
  | UnresolvedColumn string
  | UnableToInferSchema
  | PythonException

section \<open>The calendar functions behind the time columns\<close>

text \<open>
  The lambdas registered in \<^verbatim>\<open>process_log_data\<close> call
  \<^verbatim>\<open>datetime.fromtimestamp(x/1000.0)\<close> and read \<^verbatim>\<open>.day\<close>, \<^verbatim>\<open>.hour\<close>,
  \<^verbatim>\<open>.isocalendar().week\<close>, \<^verbatim>\<open>.month\<close>, \<^verbatim>\<open>.year\<close> and \<^verbatim>\<open>.weekday()\<close>. The
  definitions below are the proleptic Gregorian arithmetic of Python's \<^verbatim>\<open>datetime\<close>:
  day ordinals count from 0001-01-01 = 1. \<^verbatim>\<open>.week\<close> is the named field that
  \<^verbatim>\<open>isocalendar()\<close> has from Python 3.9 on.
\<close>

definition is_leap :: "int \<Rightarrow> bool" where
  "is_leap y = (y mod 4 = 0 \<and> (y mod 100 \<noteq> 0 \<or> y mod 400 = 0))"

definition days_before_year :: "int \<Rightarrow> int" where
  "days_before_year y = (let y1 = y - 1 in y1 * 365 + y1 div 4 - y1 div 100 + y1 div 400)"

definition DAYS_IN_MONTH :: "int list" where
  "DAYS_IN_MONTH = [-1, 31, 28, 31, 30, 31, 30, 31, 31, 30, 31, 30, 31]"

definition DAYS_BEFORE_MONTH :: "int list" where
  "DAYS_BEFORE_MONTH = [-1, 0, 31, 59, 90, 120, 151, 181, 212, 243, 273, 304, 334]"

definition days_before_month :: "int \<Rightarrow> int \<Rightarrow> int" where
  "days_before_month y m =
     DAYS_BEFORE_MONTH ! nat m + (if m > 2 \<and> is_leap y then 1 else 0)"

definition ymd2ord :: "int \<Rightarrow> int \<Rightarrow> int \<Rightarrow> int" where
  "ymd2ord y m d = days_before_year y + days_before_month y m + d"

definition find_month :: "bool \<Rightarrow> int \<Rightarrow> int \<times> int" where
  "find_month leapyear n =
     (let m = (n + 50) div 32;
          preceding = DAYS_BEFORE_MONTH ! nat m + (if m > 2 \<and> leapyear then 1 else 0)
      in if preceding > n
         then let m' = m - 1;
                  preceding' = preceding
                    - (DAYS_IN_MONTH ! nat m' + (if m' = 2 \<and> leapyear then 1 else 0))
              in (m', n - preceding' + 1)
         else (m, n - preceding + 1))"

definition ord2ymd :: "int \<Rightarrow> int \<times> int \<times> int" where
  "ord2ymd n0 =
     (let n = n0 - 1;
          n400 = n div 146097; n = n mod 146097;
          n100 = n div 36524; n = n mod 36524;
          n4 = n div 1461; n = n mod 1461;
          n1 = n div 365; n = n mod 365;
          y = n400 * 400 + 1 + n100 * 100 + n4 * 4 + n1
      in if n1 = 4 \<or> n100 = 4 then (y - 1, 12, 31)
         else (y, find_month (n1 = 3 \<and> (n4 \<noteq> 24 \<or> n100 = 3)) n))"

text \<open>The fields of a \<^verbatim>\<open>datetime\<close> that the lambdas read.\<close>

record datetime =
  dt_year :: int
  dt_month :: int
  dt_day :: int
  dt_hour :: int

definition MAXORDINAL :: int where
  "MAXORDINAL = 3652059"

text \<open>
  The day ordinal of the local calendar time at epoch second \<open>s\<close>; \<open>utcoffset s\<close> is the
  offset of the local zone from UTC, in seconds, in force at epoch second \<open>s\<close>. A date is
  representable when its year is in 1..9999.
\<close>

definition local_ordinal :: "(int \<Rightarrow> int) \<Rightarrow> int \<Rightarrow> int" where
  "local_ordinal utcoffset s = 719163 + (s + utcoffset s) div 86400"

definition year_in_range :: "int \<Rightarrow> bool" where
  "year_in_range ordinal = (1 \<le> ordinal \<and> ordinal \<le> MAXORDINAL)"

text \<open>
  \<^verbatim>\<open>datetime.fromtimestamp\<close> converts the instant to local time and then looks for a
  repeated local hour: it converts the instant 24 hours earlier as well and, when the
  offset has gone down in between, the instant earlier by that step. Each conversion
  raises on a year outside 1..9999, so the first local day of year 1 raises too.
\<close>

definition in_range :: "(int \<Rightarrow> int) \<Rightarrow> int \<Rightarrow> bool" where
  "in_range utcoffset s =
     (let transition = utcoffset s - utcoffset (s - 86400)
      in year_in_range (local_ordinal utcoffset s)
         \<and> year_in_range (local_ordinal utcoffset (s - 86400))
         \<and> (0 \<le> transition \<or> year_in_range (local_ordinal utcoffset (s + transition))))"

text \<open>
  \<^verbatim>\<open>datetime.fromtimestamp(x/1000.0)\<close>: the local calendar time of the instant \<open>x\<close>
  milliseconds after the epoch. A null \<open>x\<close> reaches the lambda as \<^verbatim>\<open>None\<close> and the
  division raises. For an integer \<open>x\<close> in the range of dates the quotient \<^verbatim>\<open>x/1000.0\<close>
  and its rounding to microseconds keep the whole second \<open>x div 1000\<close> (the fraction is a
  multiple of a millisecond, at most 0.999).
\<close>

definition fromtimestamp :: "(int \<Rightarrow> int) \<Rightarrow> int option \<Rightarrow> error + datetime" where
  "fromtimestamp utcoffset x =
     (case x of
        None \<Rightarrow> Inl PythonException
      | Some ms \<Rightarrow>
          let s = ms div 1000;
              local = s + utcoffset s
          in if \<not> in_range utcoffset s then Inl PythonException
             else case ord2ymd (local_ordinal utcoffset s) of (y, m, d) \<Rightarrow>
               Inr \<lparr>dt_year = y, dt_month = m, dt_day = d,
                    dt_hour = (local mod 86400) div 3600\<rparr>)"

definition toordinal :: "datetime \<Rightarrow> int" where
  "toordinal d = ymd2ord (dt_year d) (dt_month d) (dt_day d)"

definition weekday :: "datetime \<Rightarrow> int" where
  "weekday d = (toordinal d + 6) mod 7"

definition isoweek1monday :: "int \<Rightarrow> int" where
  "isoweek1monday y =
     (let firstday = ymd2ord y 1 1;
          firstweekday = (firstday + 6) mod 7;
          week1monday = firstday - firstweekday
      in if firstweekday > 3 then week1monday + 7 else week1monday)"

definition isocalendar_week :: "datetime \<Rightarrow> int" where
  "isocalendar_week d =
     (let y = dt_year d;
          week1monday = isoweek1monday y;
          today = toordinal d;
          w = (today - week1monday) div 7
      in if w < 0 then (today - isoweek1monday (y - 1)) div 7 + 1
         else if w \<ge> 52 \<and> today \<ge> isoweek1monday (y + 1) then 1
         else w + 1)"

text \<open>The seven registered functions, in the order of the source.\<close>

definition get_timestamp :: "int option \<Rightarrow> error + int" where
  "get_timestamp x = (case x of None \<Rightarrow> Inl PythonException | Some v \<Rightarrow> Inr v)"

definition get_day :: "(int \<Rightarrow> int) \<Rightarrow> int option \<Rightarrow> error + int" where
  "get_day tz x = map_sum id dt_day (fromtimestamp tz x)"

definition get_hour :: "(int \<Rightarrow> int) \<Rightarrow> int option \<Rightarrow> error + int" where
  "get_hour tz x = map_sum id dt_hour (fromtimestamp tz x)"

definition get_week :: "(int \<Rightarrow> int) \<Rightarrow> int option \<Rightarrow> error + int" where
  "get_week tz x = map_sum id isocalendar_week (fromtimestamp tz x)"

definition get_month :: "(int \<Rightarrow> int) \<Rightarrow> int option \<Rightarrow> error + int" where
  "get_month tz x = map_sum id dt_month (fromtimestamp tz x)"

definition get_year :: "(int \<Rightarrow> int) \<Rightarrow> int option \<Rightarrow> error + int" where
  "get_year tz x = map_sum id dt_year (fromtimestamp tz x)"

definition get_weekday :: "(int \<Rightarrow> int) \<Rightarrow> int option \<Rightarrow> error + int" where
  "get_weekday tz x = map_sum id weekday (fromtimestamp tz x)"

section \<open>The query engine the notebook drives\<close>

text \<open>
  The notebook's own code is a sequence of calls into the engine: read JSON files,
  register a view, run a SQL statement, write a table. The engine's state is a catalog of
  named relations and the object store; \<open>world\<close> holds both, and every call of the notebook
  is a function on it. \<open>Inl\<close> is an exception that ends the run.
\<close>

datatype relation =
    SongsJson "song_rec list"
  | LogsJson "log_rec list"
  | Songs "songs_row list"
  | Artists "artists_row list"
  | Users "users_row list"
  | Time "time_row list"
  | Songplays "songplays_row list"

datatype json_file = SongFile "song_rec list" | LogFile "log_rec list"

record world =
  files :: "(string \<times> json_file) list"
  catalog :: "string \<Rightarrow> relation option"
  storage :: "string \<Rightarrow> (string list \<times> relation) option"

definition bind :: "error + 'a \<Rightarrow> ('a \<Rightarrow> error + 'b) \<Rightarrow> error + 'b" where
  "bind m f = (case m of Inl e \<Rightarrow> Inl e | Inr x \<Rightarrow> f x)"

subsection \<open>Paths and file discovery\<close>

text \<open>
  A path is the string the notebook builds; the store compares paths by their components,
  so that a doubled slash counts once. The reader is modelled for the stores and patterns
  the notebook is written for: data files under plain names, and a pattern whose only
  wildcard is the \<^verbatim>\<open>*\<close> of \<^verbatim>\<open>*.json\<close>. What the engine does beyond that is not modelled,
  and the theorem on file discovery excludes it by hypothesis (\<open>plain_store\<close>,
  \<open>glob_meta\<close> below): the engine skips a name that starts with \<^verbatim>\<open>_\<close> or \<^verbatim>\<open>.\<close> or ends
  in \<^verbatim>\<open>._COPYING_\<close>, it reads directories named \<^verbatim>\<open>key=value\<close> below a matched directory
  as partitions, and in a pattern it also gives \<^verbatim>\<open>? [ ] { }\<close> and the backslash a meaning.
\<close>

fun split_slash :: "string \<Rightarrow> string list" where
  "split_slash [] = [[]]"
| "split_slash (x # xs) =
     (if x = CHR ''/'' then [] # split_slash xs
      else (case split_slash xs of c # cs \<Rightarrow> (x # c) # cs | [] \<Rightarrow> [[x]]))"

definition components :: "string \<Rightarrow> string list" where
  "components p = filter (\<lambda>c. c \<noteq> []) (split_slash p)"

text \<open>
  A pattern component against a name: \<^verbatim>\<open>*\<close> stands for any run of characters of the
  name, every other character for itself (the notebook's pattern has no other wildcard).
\<close>

fun glob :: "string \<Rightarrow> string \<Rightarrow> bool" where
  "glob [] n = (n = [])"
| "glob (p # ps) [] = (p = CHR ''*'' \<and> glob ps [])"
| "glob (p # ps) (c # cs) =
     (if p = CHR ''*'' then glob ps (c # cs) \<or> glob (p # ps) cs else p = c \<and> glob ps cs)"

definition glob_path :: "string \<Rightarrow> string list \<Rightarrow> bool" where
  "glob_path pattern cs = list_all2 glob (components pattern) cs"

text \<open>
  \<^verbatim>\<open>spark.read.option("recursiveFileLookup", "true").json(path)\<close> takes every file below
  \<open>path\<close>, at any depth.
\<close>

definition recursive_lookup :: "(string \<times> json_file) list \<Rightarrow> string \<Rightarrow> (string \<times> json_file) list" where
  "recursive_lookup fs path = filter (\<lambda>f. prefix (components path) (components (fst f))) fs"

text \<open>
  \<^verbatim>\<open>spark.read.json(pattern)\<close> expands the pattern, component by component, to the paths
  it matches. A matched file is read; of a matched directory, the files directly in it are
  read and nothing below them.
\<close>

definition glob_lookup :: "(string \<times> json_file) list \<Rightarrow> string \<Rightarrow> (string \<times> json_file) list" where
  "glob_lookup fs pattern =
     filter (\<lambda>f. let cs = components (fst f)
                 in glob_path pattern cs \<or> (cs \<noteq> [] \<and> glob_path pattern (butlast cs))) fs"

text \<open>
  No schema is given to the reader, so it infers one from the files and raises when there
  is no file to infer it from.
\<close>

definition read_json :: "(string \<times> json_file) list \<Rightarrow> error + json_file list" where
  "read_json fs = (if fs = [] then Inl UnableToInferSchema else Inr (map snd fs))"

text \<open>
  The rows of a data frame read from files. The schema is the union of the columns of the
  records, and a record reads as null in a column it does not have.
\<close>

definition null_song :: song_rec where
  "null_song = \<lparr>song_id = None, title = None, artist_id = None, year = None, duration = None,
     artist_name = None, artist_location = None, artist_latitude = None,
     artist_longitude = None\<rparr>"

definition null_log :: log_rec where
  "null_log = \<lparr>userId = None, firstName = None, lastName = None, gender = None, level = None,
     page = None, ts = None, sessionId = None, userAgent = None, artist = None\<rparr>"

fun song_records :: "json_file \<Rightarrow> song_rec list" where
  "song_records (SongFile rs) = rs"
| "song_records (LogFile rs) = map (\<lambda>_. null_song) rs"

fun log_records :: "json_file \<Rightarrow> log_rec list" where
  "log_records (LogFile rs) = rs"
| "log_records (SongFile rs) = map (\<lambda>_. null_log) rs"

subsection \<open>Catalog and storage\<close>

text \<open>
  Views and tables are looked up by name in one catalog; the notebook gives them
  different names.
\<close>

definition createOrReplaceTempView :: "string \<Rightarrow> relation \<Rightarrow> world \<Rightarrow> world" where
  "createOrReplaceTempView name r w = w\<lparr>catalog := (catalog w)(name \<mapsto> r)\<rparr>"

text \<open>\<^verbatim>\<open>CREATE TABLE name AS ...\<close>, without \<^verbatim>\<open>IF NOT EXISTS\<close>: raises when the name is taken.\<close>

definition create_table :: "string \<Rightarrow> relation \<Rightarrow> world \<Rightarrow> error + world" where
  "create_table name r w =
     (if catalog w name \<noteq> None then Inl (TableAlreadyExists name)
      else Inr (w\<lparr>catalog := (catalog w)(name \<mapsto> r)\<rparr>))"

text \<open>\<^verbatim>\<open>DROP TABLE IF EXISTS name\<close>: never raises.\<close>

definition drop_table_if_exists :: "string \<Rightarrow> world \<Rightarrow> world" where
  "drop_table_if_exists name w = w\<lparr>catalog := (catalog w)(name := None)\<rparr>"

text \<open>
  \<^verbatim>\<open>df.write.partitionBy(cols).mode("overwrite").parquet(path)\<close>: whatever was at \<open>path\<close> is
  replaced by the rows, laid out by the partition columns.
\<close>

definition write_parquet :: "string \<Rightarrow> string list \<Rightarrow> relation \<Rightarrow> world \<Rightarrow> world" where
  "write_parquet path cols r w = w\<lparr>storage := (storage w)(path \<mapsto> (cols, r))\<rparr>"

text \<open>\<^verbatim>\<open>FROM name\<close>: the relation registered under the name.\<close>

definition from_songs_json :: "world \<Rightarrow> error + song_rec list" where
  "from_songs_json w =
     (case catalog w ''songs_json'' of Some (SongsJson rs) \<Rightarrow> Inr rs
      | _ \<Rightarrow> Inl (TableNotFound ''songs_json''))"

definition from_logs_json :: "world \<Rightarrow> error + log_rec list" where
  "from_logs_json w =
     (case catalog w ''logs_json'' of Some (LogsJson rs) \<Rightarrow> Inr rs
      | _ \<Rightarrow> Inl (TableNotFound ''logs_json''))"

definition from_time :: "world \<Rightarrow> error + time_row list" where
  "from_time w =
     (case catalog w ''time'' of Some (Time rs) \<Rightarrow> Inr rs | _ \<Rightarrow> Inl (TableNotFound ''time''))"

definition select_all :: "string \<Rightarrow> world \<Rightarrow> error + relation" where
  "select_all name w =
     (case catalog w name of Some r \<Rightarrow> Inr r | None \<Rightarrow> Inl (TableNotFound name))"

subsection \<open>SQL conditions\<close>

text \<open>Comparison and conjunction are three-valued; a row passes a condition that is true.\<close>

definition sql_eq :: "'a option \<Rightarrow> 'a option \<Rightarrow> bool option" where
  "sql_eq a b = (case (a, b) of (Some x, Some y) \<Rightarrow> Some (x = y) | _ \<Rightarrow> None)"

definition sql_and :: "bool option \<Rightarrow> bool option \<Rightarrow> bool option" where
  "sql_and p q =
     (if p = Some False \<or> q = Some False then Some False
      else if p = Some True \<and> q = Some True then Some True
      else None)"

definition is_true :: "bool option \<Rightarrow> bool" where
  "is_true p = (p = Some True)"

section \<open>The statements of the notebook\<close>

text \<open>
  A view read from JSON has the columns of its records. A record is modelled with every
  column of its type, null where the JSON has none, so a view lacks a column exactly when
  it has no record: then it has no column at all, and a statement that names one raises.
\<close>

definition resolve :: "string \<Rightarrow> 'a list \<Rightarrow> error + 'a list" where
  "resolve col rows = (if rows = [] then Inl (UnresolvedColumn col) else Inr rows)"

fun sequence :: "(error + 'a) list \<Rightarrow> error + 'a list" where
  "sequence [] = Inr []"
| "sequence (x # xs) = bind x (\<lambda>v. bind (sequence xs) (\<lambda>vs. Inr (v # vs)))"

subsection \<open>The select lists\<close>

text \<open>\<^verbatim>\<open>SELECT song_id, title, artist_id, year, duration FROM songs_json\<close>\<close>

definition songs_of :: "song_rec \<Rightarrow> songs_row" where
  "songs_of s = \<lparr>songs_song_id = song_id s, songs_title = title s,
     songs_artist_id = artist_id s, songs_year = year s, songs_duration = duration s\<rparr>"

text \<open>
  \<^verbatim>\<open>SELECT artist_id, artist_name AS name, artist_location AS location,
  artist_latitude AS latitude, artist_longitude AS longitude FROM songs_json\<close>
\<close>

definition artists_of :: "song_rec \<Rightarrow> artists_row" where
  "artists_of s = \<lparr>artists_artist_id = artist_id s, artists_name = artist_name s,
     artists_location = artist_location s, artists_latitude = artist_latitude s,
     artists_longitude = artist_longitude s\<rparr>"

text \<open>\<^verbatim>\<open>WHERE page = 'NextSong'\<close>\<close>

definition next_song :: "log_rec \<Rightarrow> bool" where
  "next_song l = is_true (sql_eq (page l) (Some ''NextSong''))"

text \<open>
  \<^verbatim>\<open>SELECT userId AS user_id, firstName AS first_name, lastName AS last_name, gender, level
  FROM logs_json WHERE page = 'NextSong'\<close>
\<close>

definition users_of :: "log_rec \<Rightarrow> users_row" where
  "users_of l = \<lparr>users_user_id = userId l, users_first_name = firstName l,
     users_last_name = lastName l, users_gender = gender l, users_level = level l\<rparr>"

definition select_users :: "log_rec list \<Rightarrow> users_row list" where
  "select_users logs = map users_of (filter next_song logs)"

text \<open>
  \<^verbatim>\<open>SELECT get_timestamp(ts) AS start_time, get_hour(ts) AS hour, get_day(ts) AS day,
  get_week(ts) AS week, get_month(ts) AS month, get_year(ts) AS year,
  get_weekday(ts) AS weekday FROM logs_json WHERE page = 'NextSong'\<close>.
  An exception in a registered function fails the statement. The functions are
  registered without a return type, so the engine keeps their results as the decimal
  strings of the integers below and casts \<^verbatim>\<open>start_time\<close> back to a number where the join
  compares it with \<^verbatim>\<open>ts\<close>; the rows here hold the integers.
\<close>

definition time_of :: "(int \<Rightarrow> int) \<Rightarrow> log_rec \<Rightarrow> error + time_row" where
  "time_of tz l =
     bind (get_timestamp (ts l)) (\<lambda>st.
     bind (get_hour tz (ts l)) (\<lambda>h.
     bind (get_day tz (ts l)) (\<lambda>d.
     bind (get_week tz (ts l)) (\<lambda>wk.
     bind (get_month tz (ts l)) (\<lambda>m.
     bind (get_year tz (ts l)) (\<lambda>y.
     bind (get_weekday tz (ts l)) (\<lambda>wd.
     Inr \<lparr>time_start_time = Some st, time_hour = Some h, time_day = Some d,
          time_week = Some wk, time_month = Some m, time_year = Some y,
          time_weekday = Some wd\<rparr>)))))))"

definition select_time :: "(int \<Rightarrow> int) \<Rightarrow> log_rec list \<Rightarrow> error + time_row list" where
  "select_time tz logs = sequence (map (time_of tz) (filter next_song logs))"

text \<open>
  \<^verbatim>\<open>SELECT l.ts AS start_time, t.year AS year, t.month AS month, l.userId AS user_id,
  l.level AS level, s.song_id AS song_id, s.artist_id AS artist_id,
  l.sessionId AS session_id, s.artist_location AS location, l.userAgent as user_agent
  FROM time AS t
  JOIN logs_json AS l ON t.start_time = l.ts AND l.page = 'NextSong'
  JOIN songs_json AS s ON s.artist_name = l.artist\<close>
\<close>

definition songplays_of :: "time_row \<Rightarrow> log_rec \<Rightarrow> song_rec \<Rightarrow> songplays_row" where
  "songplays_of t l s = \<lparr>songplays_start_time = ts l, songplays_year = time_year t,
     songplays_month = time_month t, songplays_user_id = userId l,
     songplays_level = level l, songplays_song_id = song_id s,
     songplays_artist_id = artist_id s, songplays_session_id = sessionId l,
     songplays_location = artist_location s, songplays_user_agent = userAgent l\<rparr>"

definition on_time_logs :: "time_row \<Rightarrow> log_rec \<Rightarrow> bool" where
  "on_time_logs t l =
     is_true (sql_and (sql_eq (time_start_time t) (ts l)) (sql_eq (page l) (Some ''NextSong'')))"

definition on_songs :: "log_rec \<Rightarrow> song_rec \<Rightarrow> bool" where
  "on_songs l s = is_true (sql_eq (artist_name s) (artist l))"

definition join_songplays ::
  "time_row list \<Rightarrow> log_rec list \<Rightarrow> song_rec list \<Rightarrow> (time_row \<times> log_rec \<times> song_rec) list" where
  "join_songplays tm logs songs =
     concat (map (\<lambda>t. concat (map (\<lambda>l.
       if on_time_logs t l then map (\<lambda>s. (t, l, s)) (filter (on_songs l) songs) else [])
       logs)) tm)"

definition select_songplays ::
  "time_row list \<Rightarrow> log_rec list \<Rightarrow> song_rec list \<Rightarrow> songplays_row list" where
  "select_songplays tm logs songs =
     map (\<lambda>(t, l, s). songplays_of t l s) (join_songplays tm logs songs)"

subsection \<open>The functions of the notebook\<close>

definition clear_my_tables :: "world \<Rightarrow> world" where
  "clear_my_tables w =
     (let w = drop_table_if_exists ''logs_json'' w;
          w = drop_table_if_exists ''songs_json'' w;
          w = drop_table_if_exists ''songs'' w;
          w = drop_table_if_exists ''artists'' w;
          w = drop_table_if_exists ''users'' w
      in drop_table_if_exists ''users'' w)"

definition process_song_data :: "string \<Rightarrow> string \<Rightarrow> world \<Rightarrow> error + world" where
  "process_song_data input_data output_data w =
     (let songs_path = input_data @ ''song_data'' in
      bind (read_json (recursive_lookup (files w) songs_path)) (\<lambda>fs.
      let songs_df = concat (map song_records fs);
          w = createOrReplaceTempView ''songs_json'' (SongsJson songs_df) w in
      bind (from_songs_json w) (\<lambda>sj.
      bind (resolve ''song_id'' sj) (\<lambda>sj.
      bind (create_table ''songs'' (Songs (map songs_of sj)) w) (\<lambda>w.
      bind (select_all ''songs'' w) (\<lambda>songs_table.
      let w = write_parquet (output_data @ ''songs/songs_table.parquet'')
                [''year'', ''artist_id''] songs_table w in
      bind (from_songs_json w) (\<lambda>sj.
      bind (resolve ''artist_id'' sj) (\<lambda>sj.
      bind (create_table ''artists'' (Artists (map artists_of sj)) w) (\<lambda>w.
      bind (select_all ''artists'' w) (\<lambda>artists_table.
      Inr (write_parquet (output_data @ ''artists/artist_table.parquet'')
             [''name''] artists_table w)))))))))))"

text \<open>
  In \<^verbatim>\<open>CREATE TABLE time AS ...\<close> the name is checked before the rows are computed, so
  a taken name is reported before an exception of a registered function.
\<close>

definition process_log_data ::
  "(int \<Rightarrow> int) \<Rightarrow> string \<Rightarrow> string \<Rightarrow> world \<Rightarrow> error + world" where
  "process_log_data tz input_data output_data w =
     (let logs_path = input_data @ ''/logs/*.json'' in
      bind (read_json (glob_lookup (files w) logs_path)) (\<lambda>fs.
      let logs_df = concat (map log_records fs);
          w = createOrReplaceTempView ''logs_json'' (LogsJson logs_df) w in
      bind (from_logs_json w) (\<lambda>lj.
      bind (resolve ''userId'' lj) (\<lambda>lj.
      bind (create_table ''users'' (Users (select_users lj)) w) (\<lambda>w.
      bind (select_all ''users'' w) (\<lambda>users_table.
      let w = write_parquet (output_data @ ''users/users_table.parquet'')
                [''user_id''] users_table w in
      bind (from_logs_json w) (\<lambda>lj.
      bind (resolve ''ts'' lj) (\<lambda>lj.
      if catalog w ''time'' \<noteq> None then Inl (TableAlreadyExists ''time'') else
      bind (select_time tz lj) (\<lambda>rows.
      bind (create_table ''time'' (Time rows) w) (\<lambda>w.
      bind (select_all ''time'' w) (\<lambda>time_table.
      let w = write_parquet (output_data @ ''times/time_table.parquet'')
                [''year'', ''month''] time_table w in
      bind (from_time w) (\<lambda>t.
      bind (from_logs_json w) (\<lambda>l.
      bind (resolve ''ts'' l) (\<lambda>l.
      bind (from_songs_json w) (\<lambda>s.
      bind (resolve ''song_id'' s) (\<lambda>s.
      bind (create_table ''songplays'' (Songplays (select_songplays t l s)) w) (\<lambda>w.
      bind (select_all ''songplays'' w) (\<lambda>songplays_table.
      Inr (write_parquet (output_data @ ''songplays/songplays_table.parquet'')
             [''year'', ''month''] songplays_table w)))))))))))))))))))"

text \<open>
  \<^verbatim>\<open>main\<close>: \<^verbatim>\<open>create_spark_session\<close> returns the running engine (\<^verbatim>\<open>getOrCreate\<close>), whose
  catalog and store are the world's.
\<close>

definition main :: "(int \<Rightarrow> int) \<Rightarrow> world \<Rightarrow> error + world" where
  "main tz w =
     (let input_data = ''s3a://udacity-dend/'';
          output_data = ''''
      in bind (process_song_data input_data output_data w)
              (process_log_data tz input_data output_data))"

section \<open>What the theorems speak about\<close>

text \<open>The rows each transformer reads: the records of the files its lookup finds.\<close>

definition songs_df :: "string \<Rightarrow> world \<Rightarrow> song_rec list" where
  "songs_df input_data w =
     concat (map song_records (map snd (recursive_lookup (files w) (input_data @ ''song_data''))))"

definition logs_df :: "string \<Rightarrow> world \<Rightarrow> log_rec list" where
  "logs_df input_data w =
     concat (map log_records (map snd (glob_lookup (files w) (input_data @ ''/logs/*.json''))))"

text \<open>
  The characters with a meaning in a path pattern, and the stores on which the reader
  does nothing but list: every name is plain (it neither starts with \<^verbatim>\<open>_\<close> or \<^verbatim>\<open>.\<close>
  nor ends in \<^verbatim>\<open>._COPYING_\<close> nor contains \<^verbatim>\<open>=\<close>), and no file is a directory of
  another.
\<close>

definition glob_meta :: "char set" where
  "glob_meta = {CHR ''*'', CHR ''?'', CHR ''['', CHR '']'', CHR ''{'', CHR ''}'', CHR 0x5C}"

definition plain_name :: "string \<Rightarrow> bool" where
  "plain_name c =
     (\<not> prefix ''_'' c \<and> \<not> prefix ''.'' c \<and> \<not> suffix ''._COPYING_'' c
      \<and> CHR ''='' \<notin> set c)"

definition plain_store :: "(string \<times> json_file) list \<Rightarrow> bool" where
  "plain_store fs =
     ((\<forall>f \<in> set fs. \<forall>c \<in> set (components (fst f)). plain_name c)
      \<and> (\<forall>f \<in> set fs. \<forall>g \<in> set fs.
            \<not> strict_prefix (components (fst f)) (components (fst g))))"

text \<open>The relation a run leaves under a name of the catalog; none when the run raised.\<close>

definition table_of :: "string \<Rightarrow> error + world \<Rightarrow> relation option" where
  "table_of name r = (case r of Inl e \<Rightarrow> None | Inr w \<Rightarrow> catalog w name)"

text \<open>A second run: the function applied to the world the first run left.\<close>

definition rerun :: "(world \<Rightarrow> error + world) \<Rightarrow> world \<Rightarrow> error + world" where
  "rerun f w = bind (f w) f"

subsection \<open>Sample data\<close>

definition utc :: "int \<Rightarrow> int" where
  "utc s = 0"

definition song_muse :: song_rec where
  "song_muse = \<lparr>song_id = Some ''SOUPIRU12A6D4FA1E1'', title = Some ''Uprising'',
     artist_id = Some ''ARJIE2Y1187B994AB7'', year = Some 2009, duration = Some 305,
     artist_name = Some ''Muse'', artist_location = Some ''Teignmouth, Devon'',
     artist_latitude = None, artist_longitude = None\<rparr>"

definition song_anon :: song_rec where
  "song_anon = \<lparr>song_id = Some ''SOMZWCG12A8C13C480'', title = Some ''Untitled'',
     artist_id = Some ''ARD7TVE1187B99BFB1'', year = Some 0, duration = Some 218,
     artist_name = None, artist_location = Some ''California - LA'',
     artist_latitude = None, artist_longitude = None\<rparr>"

definition play_ann :: log_rec where
  "play_ann = \<lparr>userId = Some ''26'', firstName = Some ''Ann'', lastName = Some ''Lee'',
     gender = Some ''F'', level = Some ''free'', page = Some ''NextSong'',
     ts = Some 1541207953796, sessionId = Some 583, userAgent = Some ''Mozilla/5.0'',
     artist = Some ''Muse''\<rparr>"

definition play_bob :: log_rec where
  "play_bob = \<lparr>userId = Some ''61'', firstName = Some ''Bob'', lastName = Some ''Ray'',
     gender = Some ''M'', level = Some ''paid'', page = Some ''NextSong'',
     ts = Some 1541207953796, sessionId = Some 597, userAgent = Some ''Safari/537'',
     artist = Some ''Muse''\<rparr>"

definition visit_home :: log_rec where
  "visit_home = \<lparr>userId = Some ''26'', firstName = Some ''Ann'', lastName = Some ''Lee'',
     gender = Some ''F'', level = Some ''free'', page = Some ''Home'',
     ts = Some 1541207953796, sessionId = Some 583, userAgent = Some ''Mozilla/5.0'',
     artist = Some ''Muse''\<rparr>"

definition play_unnamed :: log_rec where
  "play_unnamed = \<lparr>userId = Some ''61'', firstName = Some ''Bob'', lastName = Some ''Ray'',
     gender = Some ''M'', level = Some ''paid'', page = Some ''NextSong'',
     ts = Some 1541294353796, sessionId = Some 597, userAgent = Some ''Safari/537'',
     artist = None\<rparr>"

definition time_nov3 :: time_row where
  "time_nov3 = \<lparr>time_start_time = Some 1541207953796, time_hour = Some 1, time_day = Some 3,
     time_week = Some 44, time_month = Some 11, time_year = Some 2018,
     time_weekday = Some 5\<rparr>"

definition time_nov4 :: time_row where
  "time_nov4 = \<lparr>time_start_time = Some 1541294353796, time_hour = Some 1, time_day = Some 4,
     time_week = Some 44, time_month = Some 11, time_year = Some 2018,
     time_weekday = Some 6\<rparr>"

text \<open>A store with one song file two directories deep and one log file, after the song view is registered.\<close>

definition loaded_world :: world where
  "loaded_world =
     \<lparr>files = [(''data/song_data/A/B/TRAAAAW128F429D538.json'', SongFile [song_muse, song_anon]),
               (''data/logs/2018-11-03-events.json'',
                LogFile [play_ann, play_bob, visit_home, play_unnamed])],
      catalog = [''songs_json'' \<mapsto> SongsJson [song_muse, song_anon]],
      storage = Map.empty\<rparr>"

text \<open>The same record twice in the log.\<close>

definition repeat_world :: world where
  "repeat_world =
     \<lparr>files = [(''data/logs/2018-11-03-events.json'', LogFile [play_ann, play_ann])],
      catalog = [''songs_json'' \<mapsto> SongsJson [song_muse]],
      storage = Map.empty\<rparr>"

text \<open>The only log file lies in a directory whose name ends in \<^verbatim>\<open>.json\<close>.\<close>

definition nested_world :: world where
  "nested_world =
     \<lparr>files = [(''data/logs/2018-11.json/part-00000.json'', LogFile [play_ann])],
      catalog = [''songs_json'' \<mapsto> SongsJson [song_muse]],
      storage = Map.empty\<rparr>"

text \<open>A store without any file below \<^verbatim>\<open>song_data\<close>.\<close>

definition empty_world :: world where
  "empty_world =
     \<lparr>files = [(''data/logs/2018-11-03-events.json'', LogFile [play_ann])],
      catalog = Map.empty, storage = Map.empty\<rparr>"

text \<open>A store whose only file below \<^verbatim>\<open>song_data\<close> holds no record.\<close>

definition hollow_world :: world where
  "hollow_world =
     \<lparr>files = [(''data/song_data/A/TRAAAAW128F429D538.json'', SongFile [])],
      catalog = Map.empty, storage = Map.empty\<rparr>"

text \<open>The bucket \<^verbatim>\<open>main\<close> reads, before the first run.\<close>

definition bucket_world :: world where
  "bucket_world =
     \<lparr>files = [(''s3a://udacity-dend/song_data/A/B/TRAAAAW128F429D538.json'', SongFile [song_muse]),
               (''s3a://udacity-dend/logs/2018-11-03-events.json'', LogFile [play_ann, visit_home])],
      catalog = Map.empty, storage = Map.empty\<rparr>"

text \<open>A catalog holding all seven names.\<close>

definition full_world :: world where
  "full_world =
     \<lparr>files = [],
      catalog = [''logs_json'' \<mapsto> LogsJson [play_ann], ''songs_json'' \<mapsto> SongsJson [song_muse],
                 ''songs'' \<mapsto> Songs [songs_of song_muse], ''artists'' \<mapsto> Artists [artists_of song_muse],
                 ''users'' \<mapsto> Users [users_of play_ann], ''time'' \<mapsto> Time [time_nov3],
                 ''songplays'' \<mapsto> Songplays [songplays_of time_nov3 play_ann song_muse]],
      storage = Map.empty\<rparr>"

section \<open>The calendar: an ordinal and its date\<close>

lemma mod_zero_top:
  fixes x k :: int
  assumes "0 < x" "x \<le> k"
  shows "x mod k = 0 \<longleftrightarrow> x = k"
proof (cases "x = k")
  case True
  then show ?thesis by simp
next
  case False
  with assms have "x mod k = x" by simp
  with False assms show ?thesis by simp
qed

lemma year_part:
  fixes a b c e :: int
  assumes "0 \<le> b" "b \<le> 3" "0 \<le> c" "c \<le> 24" "0 \<le> e" "e \<le> 3"
  shows "days_before_year (a * 400 + 1 + b * 100 + c * 4 + e)
           = 146097 * a + 36524 * b + 1461 * c + 365 * e"
    and "is_leap (a * 400 + 1 + b * 100 + c * 4 + e) = (e = 3 \<and> (c \<noteq> 24 \<or> b = 3))"
proof -
  define Y where "Y = a * 400 + b * 100 + c * 4 + e"
  have d4: "Y div 4 = 100 * a + 25 * b + c" unfolding Y_def using assms by linarith
  have d100: "Y div 100 = 4 * a + b" unfolding Y_def using assms by linarith
  have d400: "Y div 400 = a" unfolding Y_def using assms by linarith
  have Y1: "a * 400 + 1 + b * 100 + c * 4 + e = Y + 1" by (simp add: Y_def)
  have "days_before_year (Y + 1) = Y * 365 + Y div 4 - Y div 100 + Y div 400"
    by (simp add: days_before_year_def Let_def)
  also have "\<dots> = 146097 * a + 36524 * b + 1461 * c + 365 * e"
    unfolding d4 d100 d400 by (simp add: Y_def)
  finally show "days_before_year (a * 400 + 1 + b * 100 + c * 4 + e)
      = 146097 * a + 36524 * b + 1461 * c + 365 * e"
    unfolding Y1 .
  have "Y + 1 = 4 * (100 * a + 25 * b + c) + (e + 1)" by (simp add: Y_def)
  then have "(Y + 1) mod 4 = (e + 1) mod 4" by (simp only: mod_mult_self4)
  moreover have "(e + 1) mod 4 = 0 \<longleftrightarrow> e + 1 = 4"
    using assms by (intro mod_zero_top) linarith+
  ultimately have m4: "(Y + 1) mod 4 = 0 \<longleftrightarrow> e = 3" by linarith
  have "Y + 1 = 100 * (4 * a + b) + (4 * c + e + 1)" by (simp add: Y_def)
  then have "(Y + 1) mod 100 = (4 * c + e + 1) mod 100" by (simp only: mod_mult_self4)
  moreover have "(4 * c + e + 1) mod 100 = 0 \<longleftrightarrow> 4 * c + e + 1 = 100"
    using assms by (intro mod_zero_top) linarith+
  ultimately have m100: "(Y + 1) mod 100 = 0 \<longleftrightarrow> c = 24 \<and> e = 3" using assms by linarith
  have "Y + 1 = 400 * a + (100 * b + 4 * c + e + 1)" by (simp add: Y_def)
  then have "(Y + 1) mod 400 = (100 * b + 4 * c + e + 1) mod 400"
    by (simp only: mod_mult_self4)
  moreover have "(100 * b + 4 * c + e + 1) mod 400 = 0 \<longleftrightarrow> 100 * b + 4 * c + e + 1 = 400"
    using assms by (intro mod_zero_top) linarith+
  ultimately have m400: "(Y + 1) mod 400 = 0 \<longleftrightarrow> b = 3 \<and> c = 24 \<and> e = 3"
    using assms by linarith
  show "is_leap (a * 400 + 1 + b * 100 + c * 4 + e) = (e = 3 \<and> (c \<noteq> 24 \<or> b = 3))"
    unfolding Y1 is_leap_def m4 m100 m400 by auto
qed

lemma find_month_table:
  "\<forall>n \<in> set [0..364]. \<forall>leap \<in> set [False, True].
     (case find_month leap n of (m, d) \<Rightarrow>
        DAYS_BEFORE_MONTH ! nat m + (if m > 2 \<and> leap then 1 else 0) + d = n + 1)"
  by code_simp

lemma find_month_ord:
  assumes "0 \<le> n" "n \<le> 364"
  shows "days_before_month y (fst (find_month (is_leap y) n))
           + snd (find_month (is_leap y) n) = n + 1"
proof -
  have "n \<in> set [0..364]" "is_leap y \<in> set [False, True]" using assms by auto
  with find_month_table show ?thesis
    unfolding days_before_month_def by (fastforce simp: case_prod_beta)
qed

text \<open>The date of an ordinal has that ordinal.\<close>

lemma ymd2ord_ord2ymd: "(case ord2ymd n of (y, m, d) \<Rightarrow> ymd2ord y m d) = n"
proof -
  define n0 where "n0 = n - 1"
  define a where "a = n0 div 146097"
  define r where "r = n0 mod 146097"
  define b where "b = r div 36524"
  define r2 where "r2 = r mod 36524"
  define c where "c = r2 div 1461"
  define r3 where "r3 = r2 mod 1461"
  define e where "e = r3 div 365"
  define r4 where "r4 = r3 mod 365"
  have n0: "n0 = 146097 * a + r" and r: "r = 36524 * b + r2" and r2: "r2 = 1461 * c + r3"
    and r3: "r3 = 365 * e + r4"
    by (simp_all add: a_def r_def b_def r2_def c_def r3_def e_def r4_def)
  have rb: "0 \<le> r" "r < 146097" and r2b: "0 \<le> r2" "r2 < 36524"
    and r3b: "0 \<le> r3" "r3 < 1461" and r4b: "0 \<le> r4" "r4 < 365"
    by (simp_all add: r_def r2_def r3_def r4_def)
  have bb: "0 \<le> b" "b \<le> 4" using rb r r2b unfolding b_def by linarith+
  have cb: "0 \<le> c" "c \<le> 24" using r2b r2 r3b unfolding c_def by linarith+
  have eb: "0 \<le> e" "e \<le> 4" using r3b r3 r4b unfolding e_def by linarith+
  have unf: "ord2ymd n =
      (if e = 4 \<or> b = 4 then (a * 400 + 1 + b * 100 + c * 4 + e - 1, 12, 31)
       else (a * 400 + 1 + b * 100 + c * 4 + e,
             find_month (e = 3 \<and> (c \<noteq> 24 \<or> b = 3)) r4))"
    by (simp add: ord2ymd_def Let_def n0_def a_def r_def b_def r2_def c_def r3_def e_def
        r4_def)
  show ?thesis
  proof (cases "b = 4")
    case True
    then have "r = 146096" "r2 = 0" using r rb r2b by linarith+
    then have z: "c = 0" "e = 0" "r4 = 0" by (simp_all add: c_def r3_def e_def r4_def)
    have y: "a * 400 + 1 + b * 100 + c * 4 + e - 1 = a * 400 + 1 + 3 * 100 + 24 * 4 + 3"
      using True z by simp
    have "ymd2ord (a * 400 + 1 + 3 * 100 + 24 * 4 + 3) 12 31 = n"
      unfolding ymd2ord_def days_before_month_def
      using year_part[of 3 24 3 a] n0 \<open>r = 146096\<close>
      by (simp add: DAYS_BEFORE_MONTH_def n0_def)
    then show ?thesis using True unf y by simp
  next
    case b4: False
    then have b3: "b \<le> 3" using bb by linarith
    show ?thesis
    proof (cases "e = 4")
      case True
      then have r3v: "r3 = 1460" "r4 = 0" using r3 r3b r4b by linarith+
      have c24: "c \<noteq> 24" using r2 r2b r3v by linarith
      have y: "a * 400 + 1 + b * 100 + c * 4 + e - 1 = a * 400 + 1 + b * 100 + c * 4 + 3"
        using True by simp
      have "ymd2ord (a * 400 + 1 + b * 100 + c * 4 + 3) 12 31 = n"
        unfolding ymd2ord_def days_before_month_def
        using year_part[of b c 3 a] bb b3 cb c24 n0 r r2 r3v
        by (simp add: DAYS_BEFORE_MONTH_def n0_def)
      then show ?thesis using True unf y by simp
    next
      case False
      then have e3: "e \<le> 3" using eb by linarith
      define y where "y = a * 400 + 1 + b * 100 + c * 4 + e"
      have yp: "days_before_year y = 146097 * a + 36524 * b + 1461 * c + 365 * e"
        and lp: "is_leap y = (e = 3 \<and> (c \<noteq> 24 \<or> b = 3))"
        unfolding y_def using year_part[of b c e a] bb b3 cb eb e3 by auto
      have fm: "days_before_month y (fst (find_month (is_leap y) r4))
          + snd (find_month (is_leap y) r4) = r4 + 1"
        using find_month_ord[of r4 y] r4b by simp
      have "ord2ymd n = (y, find_month (is_leap y) r4)"
        using unf False b4 by (simp add: y_def lp[unfolded y_def])
      then show ?thesis
        using fm yp n0 r r2 r3 by (simp add: ymd2ord_def case_prod_beta n0_def)
    qed
  qed
qed

lemma fromtimestamp_Some:
  "fromtimestamp tz (Some x) =
     (let s = x div 1000
      in if \<not> in_range tz s then Inl PythonException
         else Inr \<lparr>dt_year = fst (ord2ymd (local_ordinal tz s)),
                   dt_month = fst (snd (ord2ymd (local_ordinal tz s))),
                   dt_day = snd (snd (ord2ymd (local_ordinal tz s))),
                   dt_hour = ((s + tz s) mod 86400) div 3600\<rparr>)"
  by (simp add: fromtimestamp_def Let_def case_prod_beta)

lemma weekday_of_ordinal:
  "weekday \<lparr>dt_year = fst (ord2ymd n), dt_month = fst (snd (ord2ymd n)),
            dt_day = snd (snd (ord2ymd n)), dt_hour = h\<rparr> = (n + 6) mod 7"
proof -
  have "ymd2ord (fst (ord2ymd n)) (fst (snd (ord2ymd n))) (snd (snd (ord2ymd n))) = n"
    using ymd2ord_ord2ymd[of n] by (simp add: case_prod_beta)
  then show ?thesis by (simp add: weekday_def toordinal_def)
qed

lemma get_weekday_Some:
  "get_weekday tz (Some x) =
     (let s = x div 1000; day = (s + tz s) div 86400
      in if in_range tz s then Inr ((day + 3) mod 7) else Inl PythonException)"
proof -
  define D where "D = (x div 1000 + tz (x div 1000)) div 86400"
  have "(719163 + D + 6) mod 7 = (D + 3) mod 7"
  proof -
    have "719163 + D + 6 = 7 * 102738 + (D + 3)" by simp
    then show ?thesis by (simp only: mod_mult_self4)
  qed
  then show ?thesis
    by (simp add: get_weekday_def fromtimestamp_Some Let_def weekday_of_ordinal
        local_ordinal_def D_def)
qed

text \<open>In a zone of one fixed offset the representable days are 0001-01-02 .. 9999-12-31.\<close>

lemma in_range_fixed_offset:
  "in_range (\<lambda>_. c) s \<longleftrightarrow>
     - 719161 \<le> (s + c) div 86400 \<and> (s + c) div 86400 \<le> 2932896"
proof -
  have "s - 86400 + c = (s + c) + (- 1) * 86400" by simp
  then have "(s - 86400 + c) div 86400 = (s + c) div 86400 - 1"
    by (simp only: div_mult_self1)
  then show ?thesis
    by (auto simp: in_range_def local_ordinal_def year_in_range_def MAXORDINAL_def)
qed

text \<open>In the years around 2018 every conversion is in range, whatever the zone.\<close>

lemma year_in_range_recent:
  assumes "1500000000 \<le> a" and "a \<le> 1600000000"
  shows "year_in_range (719163 + a div 86400)"
proof -
  have "1500000000 div 86400 \<le> a div 86400" using assms(1) by (rule zdiv_mono1) simp
  moreover have "a div 86400 \<le> 1600000000 div 86400" using assms(2) by (rule zdiv_mono1) simp
  ultimately show ?thesis by (simp add: year_in_range_def MAXORDINAL_def)
qed

lemma in_range_1541207953:
  assumes "\<forall>s. - 43200 \<le> tz s \<and> tz s \<le> 50400"
  shows "in_range tz 1541207953"
proof -
  have b: "- 43200 \<le> tz s" "tz s \<le> 50400" for s using assms by auto
  have t: "- 93600 \<le> tz 1541207953 - tz (1541207953 - 86400)"
    using b[of 1541207953] b[of "1541207953 - 86400"] by linarith
  have "year_in_range (local_ordinal tz 1541207953)"
    unfolding local_ordinal_def
    using b[of 1541207953] by (intro year_in_range_recent) linarith+
  moreover have "year_in_range (local_ordinal tz (1541207953 - 86400))"
    unfolding local_ordinal_def
    using b[of "1541207953 - 86400"] by (intro year_in_range_recent) linarith+
  moreover have "tz 1541207953 - tz (1541207953 - 86400) < 0 \<Longrightarrow> year_in_range
      (local_ordinal tz (1541207953 + (tz 1541207953 - tz (1541207953 - 86400))))"
    unfolding local_ordinal_def
    using t b[of "1541207953 + (tz 1541207953 - tz (1541207953 - 86400))"]
    by (intro year_in_range_recent) linarith+
  ultimately show ?thesis
    unfolding in_range_def Let_def by fastforce
qed

section \<open>The time functions\<close>

text \<open>
  C5, counterexample. The claim gives the weekday of \<open>ts = 1541207953796\<close> as 6, a Sunday.
  The instant is 2018-11-03 01:19:13 UTC, a Saturday: in a zone on UTC the function
  returns 5.
\<close>

theorem weekday_1541207953796_counterexample:
  "get_weekday utc (Some 1541207953796) = Inr 5
   \<and> get_weekday utc (Some 1541207953796) \<noteq> Inr 6"
proof -
  have zone: "utc = (\<lambda>_. 0)" by (simp add: utc_def fun_eq_iff)
  show ?thesis unfolding zone by (simp add: get_weekday_Some in_range_fixed_offset)
qed

text \<open>
  C5, amended. \<open>get_timestamp\<close> returns an integer \<open>ts\<close> as it is, in milliseconds.
  \<open>get_weekday\<close> returns the weekday of the local calendar day with 0 = Monday: the local
  day number since 1970-01-01, a Thursday, plus 3, modulo 7. It raises when the local date
  or the date 24 hours earlier is outside the years 1..9999; in a zone of one fixed offset
  it returns for the local days 0001-01-02 to 9999-12-31 and raises for every other day.
  For \<open>ts = 1541207953796\<close> and a zone whose offsets lie between UTC-12 and UTC+14 it
  returns 5 (Saturday) when the zone is then at or east of UTC-01:19:13 and 4 (Friday)
  west of it; it does not return 6.
\<close>

theorem time_functions_of_ts:
  "get_timestamp (Some x) = Inr x
   \<and> get_weekday tz (Some x) =
       (let s = x div 1000; day = (s + tz s) div 86400
        in if in_range tz s then Inr ((day + 3) mod 7) else Inl PythonException)
   \<and> get_weekday (\<lambda>_. c) (Some x) =
       (let day = (x div 1000 + c) div 86400
        in if day < - 719161 \<or> 2932896 < day then Inl PythonException
           else Inr ((day + 3) mod 7))
   \<and> ((\<forall>s. - 43200 \<le> tz s \<and> tz s \<le> 50400) \<longrightarrow>
        get_weekday tz (Some 1541207953796)
          = Inr (if - 4753 \<le> tz 1541207953 then 5 else 4))"
proof (intro conjI impI)
  show "get_timestamp (Some x) = Inr x" by (simp add: get_timestamp_def)
  show "get_weekday tz (Some x) =
       (let s = x div 1000; day = (s + tz s) div 86400
        in if in_range tz s then Inr ((day + 3) mod 7) else Inl PythonException)"
    by (rule get_weekday_Some)
  show "get_weekday (\<lambda>_. c) (Some x) =
       (let day = (x div 1000 + c) div 86400
        in if day < - 719161 \<or> 2932896 < day then Inl PythonException
           else Inr ((day + 3) mod 7))"
    by (auto simp: get_weekday_Some in_range_fixed_offset Let_def)
  assume zone: "\<forall>s. - 43200 \<le> tz s \<and> tz s \<le> 50400"
  define off where "off = tz 1541207953"
  have "- 43200 \<le> off \<and> off \<le> 50400" using zone by (simp add: off_def)
  then have day: "(1541207953 + off) div 86400 = (if - 4753 \<le> off then 17838 else 17837)"
    by (simp split: if_splits) linarith+
  show "get_weekday tz (Some 1541207953796) = Inr (if - 4753 \<le> tz 1541207953 then 5 else 4)"
    using day in_range_1541207953[OF zone]
    by (simp add: get_weekday_Some off_def Let_def)
qed

theorem time_functions_of_ts_witness:
  "(\<forall>s. - 43200 \<le> utc s \<and> utc s \<le> 50400)
   \<and> get_timestamp (Some 1541207953796) = Inr 1541207953796
   \<and> get_weekday utc (Some 1541207953796) = Inr 5
   \<and> get_weekday (\<lambda>_. 0) (Some (- 62135596800000)) = Inl PythonException
   \<and> get_weekday (\<lambda>_. 0) (Some (- 62135510400001)) = Inl PythonException
   \<and> get_weekday (\<lambda>_. 0) (Some (- 62135510400000)) = Inr 1"
  using time_functions_of_ts[of 1541207953796 utc 0]
    time_functions_of_ts[of "- 62135596800000" utc 0]
    time_functions_of_ts[of "- 62135510400001" utc 0]
    time_functions_of_ts[of "- 62135510400000" utc 0]
  by (simp add: utc_def)

section \<open>Dropping the tables\<close>

text \<open>
  C10. \<open>clear_my_tables\<close> removes the five names \<^verbatim>\<open>logs_json\<close>, \<^verbatim>\<open>songs_json\<close>,
  \<^verbatim>\<open>songs\<close>, \<^verbatim>\<open>artists\<close> and \<^verbatim>\<open>users\<close> from the catalog and changes nothing else: \<^verbatim>\<open>time\<close>
  and \<^verbatim>\<open>songplays\<close> stay registered as they were, and so do the files and the written
  data sets. Its second drop of \<^verbatim>\<open>users\<close> changes nothing.
\<close>

theorem clear_my_tables_frame:
  "catalog (clear_my_tables w) n =
     (if n \<in> {''logs_json'', ''songs_json'', ''songs'', ''artists'', ''users''} then None
      else catalog w n)
   \<and> catalog (clear_my_tables w) ''time'' = catalog w ''time''
   \<and> catalog (clear_my_tables w) ''songplays'' = catalog w ''songplays''
   \<and> files (clear_my_tables w) = files w
   \<and> storage (clear_my_tables w) = storage w
   \<and> drop_table_if_exists ''users'' (drop_table_if_exists ''users'' w)
       = drop_table_if_exists ''users'' w"
  by (simp add: clear_my_tables_def drop_table_if_exists_def Let_def)

theorem clear_my_tables_frame_witness:
  "catalog (clear_my_tables full_world) ''users'' = None
   \<and> catalog (clear_my_tables full_world) ''time'' = Some (Time [time_nov3])
   \<and> catalog (clear_my_tables full_world) ''songplays''
       = Some (Songplays [songplays_of time_nov3 play_ann song_muse])"
  using clear_my_tables_frame[of full_world "''users''"]
  by (simp add: full_world_def)

section \<open>What a successful run leaves\<close>

lemma bind_Inr_iff: "bind m f = Inr y \<longleftrightarrow> (\<exists>x. m = Inr x \<and> f x = Inr y)"
  by (cases m) (simp_all add: bind_def)

lemma bind_Inr: "bind (Inr x) f = f x"
  by (simp add: bind_def)

lemma bind_Inl: "bind (Inl e) f = Inl e"
  by (simp add: bind_def)

lemma process_song_data_Inr:
  "process_song_data inp out w = Inr w' \<longleftrightarrow>
     songs_df inp w \<noteq> [] \<and> catalog w ''songs'' = None \<and> catalog w ''artists'' = None \<and>
     w' = w\<lparr>catalog := (catalog w)(''songs_json'' \<mapsto> SongsJson (songs_df inp w),
                 ''songs'' \<mapsto> Songs (map songs_of (songs_df inp w)),
                 ''artists'' \<mapsto> Artists (map artists_of (songs_df inp w))),
            storage := (storage w)(out @ ''songs/songs_table.parquet'' \<mapsto>
                   ([''year'', ''artist_id''], Songs (map songs_of (songs_df inp w))),
                 out @ ''artists/artist_table.parquet'' \<mapsto>
                   ([''name''], Artists (map artists_of (songs_df inp w))))\<rparr>"
  unfolding process_song_data_def songs_df_def Let_def
  by (auto simp: bind_Inr_iff read_json_def createOrReplaceTempView_def from_songs_json_def
      resolve_def create_table_def select_all_def write_parquet_def split: if_splits)

lemma process_log_data_Inr:
  "process_log_data tz inp out w = Inr w' \<longleftrightarrow>
     (\<exists>tm sj. logs_df inp w \<noteq> [] \<and> catalog w ''users'' = None \<and> catalog w ''time'' = None \<and>
        catalog w ''songplays'' = None \<and>
        select_time tz (logs_df inp w) = Inr tm \<and>
        catalog w ''songs_json'' = Some (SongsJson sj) \<and> sj \<noteq> [] \<and>
     w' = w\<lparr>catalog := (catalog w)(''logs_json'' \<mapsto> LogsJson (logs_df inp w),
                 ''users'' \<mapsto> Users (select_users (logs_df inp w)),
                 ''time'' \<mapsto> Time tm,
                 ''songplays'' \<mapsto> Songplays (select_songplays tm (logs_df inp w) sj)),
            storage := (storage w)(out @ ''users/users_table.parquet'' \<mapsto>
                   ([''user_id''], Users (select_users (logs_df inp w))),
                 out @ ''times/time_table.parquet'' \<mapsto> ([''year'', ''month''], Time tm),
                 out @ ''songplays/songplays_table.parquet'' \<mapsto>
                   ([''year'', ''month''],
                    Songplays (select_songplays tm (logs_df inp w) sj)))\<rparr>)"
  unfolding process_log_data_def logs_df_def Let_def
  by (auto simp: bind_Inr_iff read_json_def createOrReplaceTempView_def from_songs_json_def
      from_logs_json_def from_time_def
      resolve_def create_table_def select_all_def write_parquet_def
      split: if_splits option.splits relation.splits)

text \<open>The tables of a successful run of the log transformer, one fact each.\<close>

lemma process_log_data_tables:
  assumes "process_log_data tz inp out w = Inr w'"
  obtains tm sj where
    "select_time tz (logs_df inp w) = Inr tm"
    "catalog w ''songs_json'' = Some (SongsJson sj)"
    "catalog w' ''songs_json'' = Some (SongsJson sj)"
    "catalog w' ''logs_json'' = Some (LogsJson (logs_df inp w))"
    "catalog w' ''users'' = Some (Users (select_users (logs_df inp w)))"
    "catalog w' ''time'' = Some (Time tm)"
    "catalog w' ''songplays'' = Some (Songplays (select_songplays tm (logs_df inp w) sj))"
    "storage w' (out @ ''users/users_table.parquet'')
       = Some ([''user_id''], Users (select_users (logs_df inp w)))"
    "storage w' (out @ ''times/time_table.parquet'') = Some ([''year'', ''month''], Time tm)"
    "storage w' (out @ ''songplays/songplays_table.parquet'')
       = Some ([''year'', ''month''], Songplays (select_songplays tm (logs_df inp w) sj))"
proof -
  from assms obtain tm sj where
    t: "select_time tz (logs_df inp w) = Inr tm"
    and s: "catalog w ''songs_json'' = Some (SongsJson sj)"
    and w': "w' = w\<lparr>catalog := (catalog w)(''logs_json'' \<mapsto> LogsJson (logs_df inp w),
                 ''users'' \<mapsto> Users (select_users (logs_df inp w)),
                 ''time'' \<mapsto> Time tm,
                 ''songplays'' \<mapsto> Songplays (select_songplays tm (logs_df inp w) sj)),
            storage := (storage w)(out @ ''users/users_table.parquet'' \<mapsto>
                   ([''user_id''], Users (select_users (logs_df inp w))),
                 out @ ''times/time_table.parquet'' \<mapsto> ([''year'', ''month''], Time tm),
                 out @ ''songplays/songplays_table.parquet'' \<mapsto>
                   ([''year'', ''month''],
                    Songplays (select_songplays tm (logs_df inp w) sj)))\<rparr>"
    unfolding process_log_data_Inr by blast
  show thesis
    by (rule that[of tm sj]) (simp_all add: t s w')
qed

section \<open>The queries\<close>

lemma next_song_iff: "next_song l \<longleftrightarrow> page l = Some ''NextSong''"
  by (cases "page l") (simp_all add: next_song_def is_true_def sql_eq_def)

lemma on_songs_iff: "on_songs l s \<longleftrightarrow> artist l \<noteq> None \<and> artist_name s = artist l"
  by (cases "artist l"; cases "artist_name s") (auto simp: on_songs_def is_true_def sql_eq_def)

lemma on_time_logs_iff:
  "on_time_logs t l \<longleftrightarrow>
     page l = Some ''NextSong'' \<and> ts l \<noteq> None \<and> time_start_time t = ts l"
  by (cases "page l"; cases "ts l"; cases "time_start_time t")
     (auto simp: on_time_logs_def is_true_def sql_eq_def sql_and_def)

lemma sequence_Inr_iff:
  "sequence xs = Inr ys \<longleftrightarrow> xs = map Inr ys"
proof (induction xs arbitrary: ys)
  case Nil
  then show ?case by auto
next
  case (Cons x xs)
  show ?case
  proof (cases x)
    case (Inl e)
    then show ?thesis by (auto simp: bind_def)
  next
    case (Inr v)
    then show ?thesis using Cons.IH by (cases ys) (auto simp: bind_Inr_iff bind_Inr)
  qed
qed

lemma time_of_Inr:
  assumes "time_of tz l = Inr t"
  shows "time_start_time t = ts l" and "ts l \<noteq> None"
  using assms
  by (auto simp: time_of_def bind_Inr_iff get_timestamp_def split: option.splits)

lemma select_time_Inr:
  assumes "select_time tz logs = Inr tm"
  shows "map time_start_time tm = map ts (filter next_song logs)"
    and "\<forall>l \<in> set logs. next_song l \<longrightarrow> ts l \<noteq> None"
proof -
  from assms have eq: "map (time_of tz) (filter next_song logs) = map Inr tm"
    by (simp add: select_time_def sequence_Inr_iff)
  then have len: "length tm = length (filter next_song logs)"
    by (metis length_map)
  have nth: "time_of tz (filter next_song logs ! i) = Inr (tm ! i)"
    if "i < length tm" for i
    using eq that len by (metis nth_map)
  show "map time_start_time tm = map ts (filter next_song logs)"
    by (rule nth_equalityI) (use len nth time_of_Inr(1) in auto)
  show "\<forall>l \<in> set logs. next_song l \<longrightarrow> ts l \<noteq> None"
  proof (intro ballI impI)
    fix l assume "l \<in> set logs" "next_song l"
    then have "l \<in> set (filter next_song logs)" by simp
    then obtain i where "i < length (filter next_song logs)" "filter next_song logs ! i = l"
      by (meson in_set_conv_nth)
    then show "ts l \<noteq> None" using nth[of i] len time_of_Inr(2) by metis
  qed
qed

section \<open>The sample runs\<close>

lemma time_of_play_ann: "time_of utc play_ann = Inr time_nov3"
  by (simp add: time_of_def bind_def play_ann_def time_nov3_def utc_def get_timestamp_def
      get_hour_def get_day_def get_week_def get_month_def get_year_def get_weekday_def
      fromtimestamp_def in_range_def local_ordinal_def year_in_range_def MAXORDINAL_def
      ord2ymd_def find_month_def DAYS_BEFORE_MONTH_def
      DAYS_IN_MONTH_def weekday_def toordinal_def ymd2ord_def days_before_year_def
      days_before_month_def is_leap_def isocalendar_week_def isoweek1monday_def Let_def)

lemma time_of_ts:
  "ts l = ts l' \<Longrightarrow> time_of tz l = time_of tz l'"
  by (simp add: time_of_def)

lemma time_of_play_bob: "time_of utc play_bob = Inr time_nov3"
  using time_of_ts[of play_bob play_ann utc] time_of_play_ann
  by (simp add: play_bob_def play_ann_def)

lemma time_of_play_unnamed: "time_of utc play_unnamed = Inr time_nov4"
  by (simp add: time_of_def bind_def play_unnamed_def time_nov4_def utc_def get_timestamp_def
      get_hour_def get_day_def get_week_def get_month_def get_year_def get_weekday_def
      fromtimestamp_def in_range_def local_ordinal_def year_in_range_def MAXORDINAL_def
      ord2ymd_def find_month_def DAYS_BEFORE_MONTH_def
      DAYS_IN_MONTH_def weekday_def toordinal_def ymd2ord_def days_before_year_def
      days_before_month_def is_leap_def isocalendar_week_def isoweek1monday_def Let_def)

lemma sample_pages:
  "next_song play_ann" "next_song play_bob" "\<not> next_song visit_home" "next_song play_unnamed"
  by (simp_all add: next_song_iff play_ann_def play_bob_def visit_home_def play_unnamed_def)

lemma logs_pattern: "components ''data//logs/*.json'' = [''data'', ''logs'', ''*.json'']"
  by (simp add: components_def)

lemma loaded_logs:
  "logs_df ''data/'' loaded_world = [play_ann, play_bob, visit_home, play_unnamed]"
  by (simp add: logs_df_def glob_lookup_def glob_path_def logs_pattern loaded_world_def
      components_def)

lemma loaded_time:
  "select_time utc (logs_df ''data/'' loaded_world) = Inr [time_nov3, time_nov3, time_nov4]"
  by (simp add: loaded_logs select_time_def sample_pages time_of_play_ann time_of_play_bob
      time_of_play_unnamed bind_def)

lemma loaded_run: "\<exists>w'. process_log_data utc ''data/'' ''out/'' loaded_world = Inr w'"
  unfolding process_log_data_Inr
  using loaded_time by (simp add: loaded_logs) (simp add: loaded_world_def)

lemma repeat_logs: "logs_df ''data/'' repeat_world = [play_ann, play_ann]"
  by (simp add: logs_df_def glob_lookup_def glob_path_def logs_pattern repeat_world_def
      components_def)

lemma repeat_run: "\<exists>w'. process_log_data utc ''data/'' ''out/'' repeat_world = Inr w'"
  unfolding process_log_data_Inr
  by (simp add: repeat_logs select_time_def sample_pages time_of_play_ann bind_def)
     (simp add: repeat_world_def)

lemma nested_logs: "logs_df ''data/'' nested_world = [play_ann]"
  by (simp add: logs_df_def glob_lookup_def glob_path_def logs_pattern nested_world_def
      components_def)

lemma nested_run: "\<exists>w'. process_log_data utc ''data/'' ''out/'' nested_world = Inr w'"
  unfolding process_log_data_Inr
  by (simp add: nested_logs select_time_def sample_pages time_of_play_ann bind_def)
     (simp add: nested_world_def)

section \<open>The users table\<close>

text \<open>
  C1, counterexample. The claim calls the users table distinct by row. The statement has
  no \<^verbatim>\<open>DISTINCT\<close>: a log that holds the same \<^verbatim>\<open>NextSong\<close> record twice gives the users
  table the same row twice.
\<close>

theorem users_distinct_counterexample:
  "table_of ''users'' (process_log_data utc ''data/'' ''out/'' repeat_world)
     = Some (Users [users_of play_ann, users_of play_ann])
   \<and> \<not> distinct [users_of play_ann, users_of play_ann]"
proof -
  obtain w' where run: "process_log_data utc ''data/'' ''out/'' repeat_world = Inr w'"
    using repeat_run by blast
  from run have "catalog w' ''users''
      = Some (Users (select_users (logs_df ''data/'' repeat_world)))"
    by (rule process_log_data_tables)
  then show ?thesis
    by (simp add: run table_of_def repeat_logs select_users_def sample_pages)
qed

text \<open>
  C1, amended. After a successful run of the log transformer the users table, in the
  catalog and as written under \<^verbatim>\<open>users/users_table.parquet\<close> partitioned by \<^verbatim>\<open>user_id\<close>,
  holds one row for every log record whose page is \<^verbatim>\<open>NextSong\<close>, namely its projection
  to (userId, firstName, lastName, gender, level), in the order read and with repeated
  rows kept; it holds no row of a record with another page.
\<close>

theorem users_table_projection:
  assumes "process_log_data tz inp out w = Inr w'"
  shows "catalog w' ''users''
           = Some (Users (map users_of
                (filter (\<lambda>l. page l = Some ''NextSong'') (logs_df inp w))))
         \<and> storage w' (out @ ''users/users_table.parquet'')
           = Some ([''user_id''], Users (map users_of
                (filter (\<lambda>l. page l = Some ''NextSong'') (logs_df inp w))))
         \<and> (\<forall>l. users_of l = \<lparr>users_user_id = userId l, users_first_name = firstName l,
                users_last_name = lastName l, users_gender = gender l,
                users_level = level l\<rparr>)"
proof -
  have sel: "select_users logs = map users_of (filter (\<lambda>l. page l = Some ''NextSong'') logs)"
    for logs
    by (simp add: select_users_def next_song_iff[abs_def])
  from assms show ?thesis
    by (rule process_log_data_tables) (simp add: sel users_of_def)
qed

theorem users_table_projection_witness:
  "table_of ''users'' (process_log_data utc ''data/'' ''out/'' loaded_world)
     = Some (Users [users_of play_ann, users_of play_bob, users_of play_unnamed])"
proof -
  obtain w' where run: "process_log_data utc ''data/'' ''out/'' loaded_world = Inr w'"
    using loaded_run by blast
  have pages: "page play_ann = Some ''NextSong''" "page play_bob = Some ''NextSong''"
    "page visit_home \<noteq> Some ''NextSong''" "page play_unnamed = Some ''NextSong''"
    using sample_pages by (simp_all add: next_song_iff)
  from users_table_projection[OF run] show ?thesis
    by (simp add: run table_of_def loaded_logs pages)
qed

section \<open>The join behind songplays\<close>

lemma concat_map_filter:
  "(\<And>x. \<not> P x \<Longrightarrow> f x = []) \<Longrightarrow> concat (map f (filter P xs)) = concat (map f xs)"
  by (induction xs) auto

lemma join_songplays_iff:
  "(t, l, s) \<in> set (join_songplays tm logs songs) \<longleftrightarrow>
     t \<in> set tm \<and> l \<in> set logs \<and> s \<in> set songs \<and> on_time_logs t l \<and> on_songs l s"
  by (auto simp: join_songplays_def)
lemma join_songplays_single_empty:
  assumes "page l \<noteq> Some ''NextSong'' \<or> artist l = None"
  shows "join_songplays tm [l] songs = []"
proof -
  have "(if on_time_logs t l then map (\<lambda>s. (t, l, s)) (filter (on_songs l) songs) else [])
      = []" for t
  proof (cases "page l = Some ''NextSong''")
    case True
    with assms have "artist l = None" by simp
    then have "filter (on_songs l) songs = []"
      by (simp add: filter_empty_conv on_songs_iff)
    then show ?thesis by simp
  next
    case False
    then have "\<not> on_time_logs t l" by (simp add: on_time_logs_iff)
    then show ?thesis by simp
  qed
  then show ?thesis by (simp add: join_songplays_def)
qed

lemma join_songplays_next_song:
  "join_songplays tm (filter (\<lambda>l. page l = Some ''NextSong'') logs) songs
     = join_songplays tm logs songs"
proof -
  have "concat (map (\<lambda>l. if on_time_logs t l
          then map (\<lambda>s. (t, l, s)) (filter (on_songs l) songs) else [])
        (filter (\<lambda>l. page l = Some ''NextSong'') logs))
      = concat (map (\<lambda>l. if on_time_logs t l
          then map (\<lambda>s. (t, l, s)) (filter (on_songs l) songs) else []) logs)" for t
    by (rule concat_map_filter) (simp add: on_time_logs_iff)
  then show ?thesis by (simp add: join_songplays_def)
qed

lemma loaded_tables:
  assumes "process_log_data utc ''data/'' ''out/'' loaded_world = Inr w'"
  shows "catalog w' ''time'' = Some (Time [time_nov3, time_nov3, time_nov4])"
    and "catalog w' ''songplays'' = Some (Songplays (select_songplays
           [time_nov3, time_nov3, time_nov4]
           [play_ann, play_bob, visit_home, play_unnamed] [song_muse, song_anon]))"
proof -
  from assms obtain tm sj where
    t: "select_time utc (logs_df ''data/'' loaded_world) = Inr tm"
    and s: "catalog loaded_world ''songs_json'' = Some (SongsJson sj)"
    and c: "catalog w' ''time'' = Some (Time tm)"
    and p: "catalog w' ''songplays''
        = Some (Songplays (select_songplays tm (logs_df ''data/'' loaded_world) sj))"
    by (rule process_log_data_tables)
  have tm: "tm = [time_nov3, time_nov3, time_nov4]" using t by (simp add: loaded_time)
  have sj: "sj = [song_muse, song_anon]" using s by (simp add: loaded_world_def)
  show "catalog w' ''time'' = Some (Time [time_nov3, time_nov3, time_nov4])"
    using c tm by simp
  show "catalog w' ''songplays'' = Some (Songplays (select_songplays
           [time_nov3, time_nov3, time_nov4]
           [play_ann, play_bob, visit_home, play_unnamed] [song_muse, song_anon]))"
    using p tm sj by (simp add: loaded_logs)
qed

section \<open>Only NextSong events reach the tables\<close>

text \<open>
  C4. After a successful run of the log transformer, each of the tables users, time and
  songplays is what its statement yields on the \<^verbatim>\<open>NextSong\<close> records alone: dropping every
  record with another page (or a null page) from the log changes none of them. A single
  record with another page yields no users row, no time row and no songplays row.
\<close>

theorem only_next_song_rows:
  assumes "process_log_data tz inp out w = Inr w'"
  shows "\<exists>tm sj.
           catalog w ''songs_json'' = Some (SongsJson sj)
         \<and> select_time tz (filter (\<lambda>l. page l = Some ''NextSong'') (logs_df inp w)) = Inr tm
         \<and> catalog w' ''users''
             = Some (Users (select_users
                 (filter (\<lambda>l. page l = Some ''NextSong'') (logs_df inp w))))
         \<and> catalog w' ''time'' = Some (Time tm)
         \<and> catalog w' ''songplays''
             = Some (Songplays (select_songplays tm
                 (filter (\<lambda>l. page l = Some ''NextSong'') (logs_df inp w)) sj))
         \<and> (\<forall>l. page l \<noteq> Some ''NextSong'' \<longrightarrow>
               select_users [l] = [] \<and> select_time tz [l] = Inr []
               \<and> select_songplays tm [l] sj = [])"
proof -
  let ?q = "\<lambda>l. page l = Some ''NextSong''"
  have q: "next_song = ?q" by (simp add: next_song_iff[abs_def])
  from assms obtain tm sj where
    t: "select_time tz (logs_df inp w) = Inr tm"
    and s: "catalog w ''songs_json'' = Some (SongsJson sj)"
    and u: "catalog w' ''users'' = Some (Users (select_users (logs_df inp w)))"
    and c: "catalog w' ''time'' = Some (Time tm)"
    and p: "catalog w' ''songplays''
        = Some (Songplays (select_songplays tm (logs_df inp w) sj))"
    by (rule process_log_data_tables)
  have "select_time tz (filter ?q (logs_df inp w)) = Inr tm"
    using t by (simp add: select_time_def q)
  moreover have "select_users (filter ?q (logs_df inp w)) = select_users (logs_df inp w)"
    by (simp add: select_users_def q)
  moreover have "select_songplays tm (filter ?q (logs_df inp w)) sj
      = select_songplays tm (logs_df inp w) sj"
    by (simp add: select_songplays_def join_songplays_next_song)
  moreover have "select_users [l] = [] \<and> select_time tz [l] = Inr []
      \<and> select_songplays tm [l] sj = []" if "page l \<noteq> Some ''NextSong''" for l
    using that
    by (simp add: select_users_def select_time_def select_songplays_def q
        join_songplays_single_empty)
  ultimately show ?thesis using s u c p by auto
qed

theorem only_next_song_rows_witness:
  "page visit_home \<noteq> Some ''NextSong''
   \<and> table_of ''users'' (process_log_data utc ''data/'' ''out/'' loaded_world)
       = Some (Users (select_users [play_ann, play_bob, play_unnamed]))
   \<and> table_of ''time'' (process_log_data utc ''data/'' ''out/'' loaded_world)
       = Some (Time [time_nov3, time_nov3, time_nov4])
   \<and> table_of ''songplays'' (process_log_data utc ''data/'' ''out/'' loaded_world)
       = Some (Songplays (select_songplays [time_nov3, time_nov3, time_nov4]
            [play_ann, play_bob, play_unnamed] [song_muse, song_anon]))
   \<and> select_users [visit_home] = []
   \<and> select_time utc [visit_home] = Inr []
   \<and> select_songplays [time_nov3, time_nov3, time_nov4] [visit_home]
        [song_muse, song_anon] = []"
proof -
  obtain w' where run: "process_log_data utc ''data/'' ''out/'' loaded_world = Inr w'"
    using loaded_run by blast
  have pages: "page play_ann = Some ''NextSong''" "page play_bob = Some ''NextSong''"
    "page visit_home \<noteq> Some ''NextSong''" "page play_unnamed = Some ''NextSong''"
    using sample_pages by (simp_all add: next_song_iff)
  from only_next_song_rows[OF run] obtain tm sj where
    s: "catalog loaded_world ''songs_json'' = Some (SongsJson sj)"
    and u: "catalog w' ''users'' = Some (Users (select_users
        (filter (\<lambda>l. page l = Some ''NextSong'') (logs_df ''data/'' loaded_world))))"
    and c: "catalog w' ''time'' = Some (Time tm)"
    and p: "catalog w' ''songplays'' = Some (Songplays (select_songplays tm
        (filter (\<lambda>l. page l = Some ''NextSong'') (logs_df ''data/'' loaded_world)) sj))"
    and n: "\<forall>l. page l \<noteq> Some ''NextSong'' \<longrightarrow>
               select_users [l] = [] \<and> select_time utc [l] = Inr []
               \<and> select_songplays tm [l] sj = []"
    by blast
  have sj: "sj = [song_muse, song_anon]" using s by (simp add: loaded_world_def)
  have tm: "tm = [time_nov3, time_nov3, time_nov4]"
    using c loaded_tables(1)[OF run] by simp
  show ?thesis
    using u c p n[rule_format, OF pages(3)] pages
    by (simp add: run table_of_def loaded_logs sj tm)
qed

lemma select_songplays_Cons:
  "select_songplays (t # tm) logs songs
     = map (\<lambda>(t, l, s). songplays_of t l s)
         (concat (map (\<lambda>l. if on_time_logs t l
            then map (\<lambda>s. (t, l, s)) (filter (on_songs l) songs) else []) logs))
       @ select_songplays tm logs songs"
  by (simp add: select_songplays_def join_songplays_def)

lemma select_songplays_Nil: "select_songplays [] logs songs = []"
  by (simp add: select_songplays_def join_songplays_def)

lemma mset_row_of_logs:
  "mset (map F (concat (map g logs))) = (\<Sum>l\<leftarrow>logs. mset (map F (g l)))"
  by (induction logs) simp_all

text \<open>The rows of the join, event by event: the join is the sum of its single-event joins.\<close>

lemma select_songplays_by_event:
  "mset (select_songplays tm logs songs)
     = (\<Sum>l\<leftarrow>logs. mset (select_songplays tm [l] songs))"
proof (induction tm)
  case Nil
  then show ?case by (simp add: select_songplays_Nil)
next
  case (Cons t tm)
  let ?g = "\<lambda>l. if on_time_logs t l
      then map (\<lambda>s. (t, l, s)) (filter (on_songs l) songs) else []"
  let ?F = "\<lambda>(t, l, s). songplays_of t l s"
  have single: "mset (select_songplays (t # tm) [l] songs)
      = mset (map ?F (?g l)) + mset (select_songplays tm [l] songs)" for l
    by (simp add: select_songplays_Cons)
  have "mset (select_songplays (t # tm) logs songs)
      = (\<Sum>l\<leftarrow>logs. mset (map ?F (?g l))) + mset (select_songplays tm logs songs)"
    by (simp only: select_songplays_Cons mset_append mset_row_of_logs)
  also have "\<dots> = (\<Sum>l\<leftarrow>logs. mset (map ?F (?g l)))
      + (\<Sum>l\<leftarrow>logs. mset (select_songplays tm [l] songs))"
    by (simp only: Cons.IH)
  also have "\<dots> = (\<Sum>l\<leftarrow>logs. mset (map ?F (?g l)) + mset (select_songplays tm [l] songs))"
    by (simp only: sum_list_addf)
  finally show ?case by (simp only: single)
qed

lemma select_songplays_single_length:
  "length (select_songplays tm [l] songs)
     = length (filter (\<lambda>t. on_time_logs t l) tm) * length (filter (on_songs l) songs)"
  by (induction tm) (simp_all add: select_songplays_Nil select_songplays_Cons)

lemma time_rows_of_event:
  assumes "map time_start_time tm = map ts (filter next_song logs)"
    and "page l = Some ''NextSong''" and "ts l \<noteq> None"
  shows "length (filter (\<lambda>t. on_time_logs t l) tm)
     = length (filter (\<lambda>l'. page l' = Some ''NextSong'' \<and> ts l' = ts l) logs)"
proof -
  have "filter (\<lambda>t. on_time_logs t l) tm = filter ((\<lambda>x. x = ts l) \<circ> time_start_time) tm"
    using assms(2,3) by (simp add: on_time_logs_iff comp_def)
  then have "length (filter (\<lambda>t. on_time_logs t l) tm)
      = length (filter (\<lambda>x. x = ts l) (map time_start_time tm))"
    by (simp add: filter_map)
  also have "\<dots> = length (filter ((\<lambda>x. x = ts l) \<circ> ts) (filter next_song logs))"
    by (simp only: assms(1) filter_map length_map)
  also have "\<dots> = length (filter (\<lambda>l'. page l' = Some ''NextSong'' \<and> ts l' = ts l) logs)"
    by (simp add: comp_def next_song_iff conj_commute)
  finally show ?thesis .
qed

lemma catalog_rows_of_event:
  "length (filter (on_songs l) songs)
     = (case artist l of None \<Rightarrow> 0
        | Some a \<Rightarrow> length (filter (\<lambda>s. artist_name s = Some a) songs))"
  by (cases "artist l") (simp_all add: on_songs_iff[abs_def])

lemma loaded_join:
  "join_songplays [time_nov3, time_nov3, time_nov4]
       [play_ann, play_bob, visit_home, play_unnamed] [song_muse, song_anon]
     = [(time_nov3, play_ann, song_muse), (time_nov3, play_bob, song_muse),
        (time_nov3, play_ann, song_muse), (time_nov3, play_bob, song_muse)]"
  by (simp add: join_songplays_def on_time_logs_def on_songs_def is_true_def sql_eq_def
      sql_and_def time_nov3_def time_nov4_def play_ann_def play_bob_def visit_home_def
      play_unnamed_def song_muse_def song_anon_def)
section \<open>The location column of songplays\<close>

text \<open>
  C6. After a successful run of the log transformer the songplays table is the select
  list applied to the joined triples (time row, log record, catalog record). In every
  joined triple the catalog record is a record of \<^verbatim>\<open>songs_json\<close> whose artist name equals
  the log record's artist, and the row's location is that catalog record's
  \<^verbatim>\<open>artist_location\<close>. The location of a row does not depend on the log record.
\<close>

theorem songplays_location_from_catalog:
  assumes "process_log_data tz inp out w = Inr w'"
  shows "\<exists>tm sj.
           catalog w ''songs_json'' = Some (SongsJson sj)
         \<and> catalog w' ''time'' = Some (Time tm)
         \<and> catalog w' ''songplays''
             = Some (Songplays (map (\<lambda>(t, l, s). songplays_of t l s)
                  (join_songplays tm (logs_df inp w) sj)))
         \<and> (\<forall>(t, l, s) \<in> set (join_songplays tm (logs_df inp w) sj).
               l \<in> set (logs_df inp w) \<and> s \<in> set sj \<and> artist_name s = artist l
               \<and> songplays_location (songplays_of t l s) = artist_location s)
         \<and> (\<forall>t l l' s. songplays_location (songplays_of t l s)
                         = songplays_location (songplays_of t l' s))"
proof -
  from assms obtain tm sj where
    s: "catalog w ''songs_json'' = Some (SongsJson sj)"
    and c: "catalog w' ''time'' = Some (Time tm)"
    and p: "catalog w' ''songplays''
        = Some (Songplays (select_songplays tm (logs_df inp w) sj))"
    by (rule process_log_data_tables)
  have "l \<in> set (logs_df inp w) \<and> s \<in> set sj \<and> artist_name s = artist l
      \<and> songplays_location (songplays_of t l s) = artist_location s"
    if "(t, l, s) \<in> set (join_songplays tm (logs_df inp w) sj)" for t l s
    using that by (simp add: join_songplays_iff on_songs_iff songplays_of_def)
  then have "\<forall>(t, l, s) \<in> set (join_songplays tm (logs_df inp w) sj).
      l \<in> set (logs_df inp w) \<and> s \<in> set sj \<and> artist_name s = artist l
      \<and> songplays_location (songplays_of t l s) = artist_location s"
    by blast
  moreover have "\<forall>t l l' s. songplays_location (songplays_of t l s)
      = songplays_location (songplays_of t l' s)"
    by (simp add: songplays_of_def)
  ultimately show ?thesis
    using s c p unfolding select_songplays_def by blast
qed

theorem songplays_location_from_catalog_witness:
  "table_of ''songplays'' (process_log_data utc ''data/'' ''out/'' loaded_world)
     = Some (Songplays (map (\<lambda>(t, l, s). songplays_of t l s)
         [(time_nov3, play_ann, song_muse), (time_nov3, play_bob, song_muse),
          (time_nov3, play_ann, song_muse), (time_nov3, play_bob, song_muse)]))
   \<and> songplays_location (songplays_of time_nov3 play_ann song_muse)
       = Some ''Teignmouth, Devon''
   \<and> songplays_location (songplays_of time_nov3 play_bob song_muse)
       = Some ''Teignmouth, Devon''"
proof -
  obtain w' where run: "process_log_data utc ''data/'' ''out/'' loaded_world = Inr w'"
    using loaded_run by blast
  from songplays_location_from_catalog[OF run] obtain tm sj where
    s: "catalog loaded_world ''songs_json'' = Some (SongsJson sj)"
    and c: "catalog w' ''time'' = Some (Time tm)"
    and p: "catalog w' ''songplays''
        = Some (Songplays (map (\<lambda>(t, l, s). songplays_of t l s)
             (join_songplays tm (logs_df ''data/'' loaded_world) sj)))"
    and loc: "\<forall>(t, l, s) \<in> set (join_songplays tm (logs_df ''data/'' loaded_world) sj).
               l \<in> set (logs_df ''data/'' loaded_world) \<and> s \<in> set sj
               \<and> artist_name s = artist l
               \<and> songplays_location (songplays_of t l s) = artist_location s"
    by blast
  have sj: "sj = [song_muse, song_anon]" using s by (simp add: loaded_world_def)
  have tm: "tm = [time_nov3, time_nov3, time_nov4]"
    using c loaded_tables(1)[OF run] by simp
  have j: "join_songplays tm (logs_df ''data/'' loaded_world) sj
      = [(time_nov3, play_ann, song_muse), (time_nov3, play_bob, song_muse),
         (time_nov3, play_ann, song_muse), (time_nov3, play_bob, song_muse)]"
    by (simp only: sj tm loaded_logs loaded_join)
  have "songplays_location (songplays_of time_nov3 play_ann song_muse)
      = artist_location song_muse"
    and "songplays_location (songplays_of time_nov3 play_bob song_muse)
      = artist_location song_muse"
    using loc unfolding j by simp_all
  then show ?thesis
    using p unfolding j by (simp add: run table_of_def song_muse_def)
qed

section \<open>A null artist\<close>

text \<open>
  C9. After a successful run of the log transformer, no joined triple behind the
  songplays table has a log record with a null artist, and a log record with a null artist
  contributes no songplays row, whatever its page, and also when \<^verbatim>\<open>songs_json\<close> holds
  records with a null \<^verbatim>\<open>artist_name\<close>: the comparison \<^verbatim>\<open>s.artist_name = l.artist\<close> is not
  true on a null.
\<close>

theorem null_artist_no_songplays:
  assumes "process_log_data tz inp out w = Inr w'"
  shows "\<exists>tm sj.
           catalog w ''songs_json'' = Some (SongsJson sj)
         \<and> catalog w' ''time'' = Some (Time tm)
         \<and> catalog w' ''songplays''
             = Some (Songplays (map (\<lambda>(t, l, s). songplays_of t l s)
                  (join_songplays tm (logs_df inp w) sj)))
         \<and> (\<forall>(t, l, s) \<in> set (join_songplays tm (logs_df inp w) sj). artist l \<noteq> None)
         \<and> (\<forall>l. artist l = None \<longrightarrow> select_songplays tm [l] sj = [])"
proof -
  from assms obtain tm sj where
    s: "catalog w ''songs_json'' = Some (SongsJson sj)"
    and c: "catalog w' ''time'' = Some (Time tm)"
    and p: "catalog w' ''songplays''
        = Some (Songplays (select_songplays tm (logs_df inp w) sj))"
    by (rule process_log_data_tables)
  have "\<forall>(t, l, s) \<in> set (join_songplays tm (logs_df inp w) sj). artist l \<noteq> None"
    by (auto simp: join_songplays_iff on_songs_iff)
  moreover have "\<forall>l. artist l = None \<longrightarrow> select_songplays tm [l] sj = []"
    by (simp add: select_songplays_def join_songplays_single_empty)
  ultimately show ?thesis
    using s c p unfolding select_songplays_def by blast
qed

theorem null_artist_no_songplays_witness:
  "artist play_unnamed = None \<and> page play_unnamed = Some ''NextSong''
   \<and> artist_name song_anon = None
   \<and> table_of ''songs_json'' (process_log_data utc ''data/'' ''out/'' loaded_world)
       = Some (SongsJson [song_muse, song_anon])
   \<and> table_of ''logs_json'' (process_log_data utc ''data/'' ''out/'' loaded_world)
       = Some (LogsJson [play_ann, play_bob, visit_home, play_unnamed])
   \<and> select_songplays [time_nov3, time_nov3, time_nov4] [play_unnamed]
        [song_muse, song_anon] = []"
proof -
  obtain w' where run: "process_log_data utc ''data/'' ''out/'' loaded_world = Inr w'"
    using loaded_run by blast
  from null_artist_no_songplays[OF run] obtain tm sj where
    s: "catalog loaded_world ''songs_json'' = Some (SongsJson sj)"
    and c: "catalog w' ''time'' = Some (Time tm)"
    and n: "\<forall>l. artist l = None \<longrightarrow> select_songplays tm [l] sj = []"
    by blast
  have sj: "sj = [song_muse, song_anon]" using s by (simp add: loaded_world_def)
  have tm: "tm = [time_nov3, time_nov3, time_nov4]"
    using c loaded_tables(1)[OF run] by simp
  have a: "artist play_unnamed = None" by (simp add: play_unnamed_def)
  from run obtain sj' where
    v1: "catalog loaded_world ''songs_json'' = Some (SongsJson sj')"
    and v2: "catalog w' ''songs_json'' = Some (SongsJson sj')"
    and v3: "catalog w' ''logs_json'' = Some (LogsJson (logs_df ''data/'' loaded_world))"
    by (rule process_log_data_tables)
  have "sj' = [song_muse, song_anon]" using v1 by (simp add: loaded_world_def)
  then have views: "catalog w' ''songs_json'' = Some (SongsJson [song_muse, song_anon])"
    "catalog w' ''logs_json'' = Some (LogsJson [play_ann, play_bob, visit_home, play_unnamed])"
    using v2 v3 by (simp_all add: loaded_logs)
  show ?thesis
    using n[rule_format, OF a] views
    by (simp add: sj tm run table_of_def play_unnamed_def song_anon_def)
qed

section \<open>How many songplays rows an event gives\<close>

text \<open>
  C3, counterexample. The claim gives an event whose artist matches k catalog records
  exactly k songplays rows. The time table has one row per \<^verbatim>\<open>NextSong\<close> event, not one per
  timestamp, and the join meets an event with every time row of its timestamp: two
  events of the same \<^verbatim>\<open>ts\<close>, each matching one catalog record, give four rows, two each.
\<close>

theorem songplays_rows_counterexample:
  "table_of ''songplays'' (process_log_data utc ''data/'' ''out/'' loaded_world)
     = Some (Songplays
         [songplays_of time_nov3 play_ann song_muse, songplays_of time_nov3 play_bob song_muse,
          songplays_of time_nov3 play_ann song_muse, songplays_of time_nov3 play_bob song_muse])
   \<and> length (filter (\<lambda>s. artist_name s = artist play_ann) [song_muse, song_anon]) = 1
   \<and> length (filter (\<lambda>s. artist_name s = artist play_bob) [song_muse, song_anon]) = 1
   \<and> length (select_songplays [time_nov3, time_nov3, time_nov4] [play_ann]
        [song_muse, song_anon]) = 2"
proof -
  obtain w' where run: "process_log_data utc ''data/'' ''out/'' loaded_world = Inr w'"
    using loaded_run by blast
  have "table_of ''songplays'' (process_log_data utc ''data/'' ''out/'' loaded_world)
     = Some (Songplays
         [songplays_of time_nov3 play_ann song_muse, songplays_of time_nov3 play_bob song_muse,
          songplays_of time_nov3 play_ann song_muse, songplays_of time_nov3 play_bob song_muse])"
    using loaded_tables(2)[OF run]
    by (simp add: run table_of_def select_songplays_def loaded_join)
  moreover have "length (select_songplays [time_nov3, time_nov3, time_nov4] [play_ann]
        [song_muse, song_anon]) = 2"
    by (simp add: select_songplays_single_length on_time_logs_iff on_songs_iff
        time_nov3_def time_nov4_def play_ann_def song_muse_def song_anon_def)
  ultimately show ?thesis
    by (simp add: play_ann_def play_bob_def song_muse_def song_anon_def)
qed

text \<open>
  C3, amended. After a successful run of the log transformer the songplays table is the
  join of time with \<^verbatim>\<open>logs_json\<close> on \<^verbatim>\<open>start_time = ts AND page = 'NextSong'\<close> and with
  \<^verbatim>\<open>songs_json\<close> on \<^verbatim>\<open>artist_name = artist\<close>, and its rows are, event by event, the rows of
  the single events. A log record with page \<^verbatim>\<open>NextSong\<close> gives m * k rows: m is the number
  of \<^verbatim>\<open>NextSong\<close> records of the log with its \<^verbatim>\<open>ts\<close> (itself included), k the number of
  catalog records whose artist name is its artist (0 for a null artist). So it gives no
  row when no catalog record matches, and exactly k rows when no other \<^verbatim>\<open>NextSong\<close>
  record shares its timestamp. A record with another page gives no row.
\<close>

theorem songplays_rows_per_event:
  assumes "process_log_data tz inp out w = Inr w'"
  shows "\<exists>tm sj.
           catalog w ''songs_json'' = Some (SongsJson sj)
         \<and> catalog w' ''time'' = Some (Time tm)
         \<and> catalog w' ''songplays''
             = Some (Songplays (select_songplays tm (logs_df inp w) sj))
         \<and> mset (select_songplays tm (logs_df inp w) sj)
             = (\<Sum>l\<leftarrow>logs_df inp w. mset (select_songplays tm [l] sj))
         \<and> (\<forall>l \<in> set (logs_df inp w).
               length (select_songplays tm [l] sj)
               = (if page l = Some ''NextSong''
                  then length (filter (\<lambda>l'. page l' = Some ''NextSong'' \<and> ts l' = ts l)
                         (logs_df inp w))
                       * (case artist l of None \<Rightarrow> 0
                          | Some a \<Rightarrow> length (filter (\<lambda>s. artist_name s = Some a) sj))
                  else 0))"
proof -
  from assms obtain tm sj where
    t: "select_time tz (logs_df inp w) = Inr tm"
    and s: "catalog w ''songs_json'' = Some (SongsJson sj)"
    and c: "catalog w' ''time'' = Some (Time tm)"
    and p: "catalog w' ''songplays''
        = Some (Songplays (select_songplays tm (logs_df inp w) sj))"
    by (rule process_log_data_tables)
  have starts: "map time_start_time tm = map ts (filter next_song (logs_df inp w))"
    and stamped: "\<forall>l \<in> set (logs_df inp w). next_song l \<longrightarrow> ts l \<noteq> None"
    using select_time_Inr[OF t] by blast+
  have "length (select_songplays tm [l] sj)
      = (if page l = Some ''NextSong''
         then length (filter (\<lambda>l'. page l' = Some ''NextSong'' \<and> ts l' = ts l)
                (logs_df inp w))
              * (case artist l of None \<Rightarrow> 0
                 | Some a \<Rightarrow> length (filter (\<lambda>s. artist_name s = Some a) sj))
         else 0)"
    if l: "l \<in> set (logs_df inp w)" for l
  proof (cases "page l = Some ''NextSong''")
    case True
    then have "ts l \<noteq> None" using stamped l by (simp add: next_song_iff)
    then show ?thesis
      using True time_rows_of_event[OF starts True]
      by (simp add: select_songplays_single_length catalog_rows_of_event)
  next
    case False
    then show ?thesis
      by (simp add: select_songplays_def join_songplays_single_empty)
  qed
  then show ?thesis
    using s c p select_songplays_by_event[of tm "logs_df inp w" sj] by blast
qed

theorem songplays_rows_per_event_witness:
  "play_ann \<in> set [play_ann, play_bob, visit_home, play_unnamed]
   \<and> table_of ''logs_json'' (process_log_data utc ''data/'' ''out/'' loaded_world)
       = Some (LogsJson [play_ann, play_bob, visit_home, play_unnamed])
   \<and> table_of ''time'' (process_log_data utc ''data/'' ''out/'' loaded_world)
       = Some (Time [time_nov3, time_nov3, time_nov4])
   \<and> length (select_songplays [time_nov3, time_nov3, time_nov4] [play_ann]
        [song_muse, song_anon]) = 2 * 1
   \<and> length (select_songplays [time_nov3, time_nov3, time_nov4] [play_unnamed]
        [song_muse, song_anon]) = 1 * 0
   \<and> length (select_songplays [time_nov3, time_nov3, time_nov4] [visit_home]
        [song_muse, song_anon]) = 0"
proof -
  obtain w' where run: "process_log_data utc ''data/'' ''out/'' loaded_world = Inr w'"
    using loaded_run by blast
  from songplays_rows_per_event[OF run] obtain tm sj where
    s: "catalog loaded_world ''songs_json'' = Some (SongsJson sj)"
    and c: "catalog w' ''time'' = Some (Time tm)"
    and n: "\<forall>l \<in> set (logs_df ''data/'' loaded_world).
               length (select_songplays tm [l] sj)
               = (if page l = Some ''NextSong''
                  then length (filter (\<lambda>l'. page l' = Some ''NextSong'' \<and> ts l' = ts l)
                         (logs_df ''data/'' loaded_world))
                       * (case artist l of None \<Rightarrow> 0
                          | Some a \<Rightarrow> length (filter (\<lambda>s. artist_name s = Some a) sj))
                  else 0)"
    by blast
  have sj: "sj = [song_muse, song_anon]" using s by (simp add: loaded_world_def)
  have tm: "tm = [time_nov3, time_nov3, time_nov4]"
    using c loaded_tables(1)[OF run] by simp
  from run have v3: "catalog w' ''logs_json'' = Some (LogsJson (logs_df ''data/'' loaded_world))"
    by (rule process_log_data_tables)
  have fields:
    "page play_ann = Some ''NextSong''" "page play_bob = Some ''NextSong''"
    "page visit_home = Some ''Home''" "page play_unnamed = Some ''NextSong''"
    "ts play_ann = Some 1541207953796" "ts play_bob = Some 1541207953796"
    "ts visit_home = Some 1541207953796" "ts play_unnamed = Some 1541294353796"
    "artist play_ann = Some ''Muse''" "artist play_unnamed = None"
    "artist_name song_muse = Some ''Muse''" "artist_name song_anon = None"
    by (simp_all add: play_ann_def play_bob_def visit_home_def play_unnamed_def
        song_muse_def song_anon_def)
  have "length (select_songplays tm [play_ann] sj) = 2 * 1"
    and "length (select_songplays tm [play_unnamed] sj) = 1 * 0"
    and "length (select_songplays tm [visit_home] sj) = 0"
    using n unfolding loaded_logs sj by (simp_all add: fields)
  then show ?thesis
    using c v3 by (simp add: run table_of_def loaded_logs tm sj)
qed

section \<open>An empty song catalog\<close>

lemma song_data_pattern: "components ''data/song_data'' = [''data'', ''song_data'']"
  by (simp add: components_def)

text \<open>
  C8, counterexample. The claim has \<open>process_song_data\<close> finish on an empty input and write
  empty tables. The reader is given no schema; with no file below \<^verbatim>\<open>song_data\<close> it
  raises, and the run ends without a songs table.
\<close>

theorem process_song_data_empty_counterexample:
  "recursive_lookup (files empty_world) (''data/'' @ ''song_data'') = []
   \<and> process_song_data ''data/'' ''out/'' empty_world = Inl UnableToInferSchema
   \<and> table_of ''songs'' (process_song_data ''data/'' ''out/'' empty_world) = None"
  by (simp add: process_song_data_def recursive_lookup_def song_data_pattern empty_world_def
      components_def read_json_def bind_def table_of_def)

text \<open>
  C8, amended. On an empty song input \<open>process_song_data\<close> raises: when no file lies below
  \<^verbatim>\<open>song_data\<close> the read raises (no schema can be inferred), and when the files there hold
  no record the first \<^verbatim>\<open>CREATE TABLE\<close> raises (the view has no column \<^verbatim>\<open>song_id\<close>).
\<close>

theorem process_song_data_empty_input:
  assumes "songs_df inp w = []"
  shows "process_song_data inp out w =
           (if recursive_lookup (files w) (inp @ ''song_data'') = []
            then Inl UnableToInferSchema else Inl (UnresolvedColumn ''song_id''))"
  using assms
  by (simp add: process_song_data_def songs_df_def Let_def read_json_def bind_def
      createOrReplaceTempView_def from_songs_json_def resolve_def)

theorem process_song_data_empty_input_witness:
  "songs_df ''data/'' hollow_world = []
   \<and> recursive_lookup (files hollow_world) (''data/'' @ ''song_data'') \<noteq> []
   \<and> process_song_data ''data/'' ''out/'' hollow_world = Inl (UnresolvedColumn ''song_id'')"
proof -
  have look: "recursive_lookup (files hollow_world) (''data/'' @ ''song_data'')
      = [(''data/song_data/A/TRAAAAW128F429D538.json'', SongFile [])]"
    by (simp add: recursive_lookup_def song_data_pattern hollow_world_def components_def)
  then have empty: "songs_df ''data/'' hollow_world = []"
    by (simp add: songs_df_def)
  from process_song_data_empty_input[OF empty, of "''out/''"] look empty
  show ?thesis by simp
qed

section \<open>Running the pipeline twice\<close>

lemma main_Inr:
  "main tz w = Inr w' \<longleftrightarrow>
     (\<exists>w1. process_song_data ''s3a://udacity-dend/'' '''' w = Inr w1
        \<and> process_log_data tz ''s3a://udacity-dend/'' '''' w1 = Inr w')"
  by (simp add: main_def Let_def bind_Inr_iff)

lemma process_song_data_taken:
  assumes "songs_df inp w \<noteq> []" and "catalog w ''songs'' \<noteq> None"
  shows "process_song_data inp out w = Inl (TableAlreadyExists ''songs'')"
  using assms
  by (auto simp: process_song_data_def songs_df_def Let_def read_json_def bind_def
      createOrReplaceTempView_def from_songs_json_def resolve_def create_table_def)

lemma process_song_data_tables:
  assumes "process_song_data inp out w = Inr w'"
  shows "files w' = files w"
    and "songs_df inp w \<noteq> []"
    and "catalog w' ''songs_json'' = Some (SongsJson (songs_df inp w))"
    and "catalog w' ''songs'' = Some (Songs (map songs_of (songs_df inp w)))"
    and "catalog w' ''artists'' = Some (Artists (map artists_of (songs_df inp w)))"
    and "catalog w' ''users'' = catalog w ''users''"
    and "catalog w' ''time'' = catalog w ''time''"
    and "catalog w' ''songplays'' = catalog w ''songplays''"
    and "storage w' (out @ ''songs/songs_table.parquet'')
           = Some ([''year'', ''artist_id''], Songs (map songs_of (songs_df inp w)))"
    and "storage w' (out @ ''artists/artist_table.parquet'')
           = Some ([''name''], Artists (map artists_of (songs_df inp w)))"
  using assms unfolding process_song_data_Inr by simp_all

lemma process_log_data_frame:
  assumes "process_log_data tz inp out w = Inr w'"
  shows "files w' = files w"
    and "catalog w' ''songs'' = catalog w ''songs''"
    and "catalog w' ''artists'' = catalog w ''artists''"
  using assms unfolding process_log_data_Inr by auto

lemma main_leaves_songs:
  assumes "main tz w = Inr w'"
  shows "songs_df ''s3a://udacity-dend/'' w' \<noteq> []" and "catalog w' ''songs'' \<noteq> None"
proof -
  from assms obtain w1 where
    s: "process_song_data ''s3a://udacity-dend/'' '''' w = Inr w1"
    and l: "process_log_data tz ''s3a://udacity-dend/'' '''' w1 = Inr w'"
    unfolding main_Inr by blast
  have "files w' = files w"
    using process_song_data_tables(1)[OF s] process_log_data_frame(1)[OF l] by simp
  then show "songs_df ''s3a://udacity-dend/'' w' \<noteq> []"
    using process_song_data_tables(2)[OF s] by (simp add: songs_df_def)
  show "catalog w' ''songs'' \<noteq> None"
    using process_song_data_tables(4)[OF s] process_log_data_frame(2)[OF l] by simp
qed

lemma bucket_songs: "songs_df ''s3a://udacity-dend/'' bucket_world = [song_muse]"
  by (simp add: songs_df_def recursive_lookup_def bucket_world_def components_def)

lemma bucket_first_run: "\<exists>w'. main utc bucket_world = Inr w'"
proof -
  obtain w1 where s: "process_song_data ''s3a://udacity-dend/'' '''' bucket_world = Inr w1"
    unfolding process_song_data_Inr by (simp add: bucket_songs) (simp add: bucket_world_def)
  have c1: "catalog w1 ''songs_json'' = Some (SongsJson [song_muse])"
    using process_song_data_tables(3)[OF s] by (simp add: bucket_songs)
  have c2: "catalog w1 ''users'' = None" "catalog w1 ''time'' = None"
    "catalog w1 ''songplays'' = None"
    using process_song_data_tables(6,7,8)[OF s] by (simp_all add: bucket_world_def)
  have f1: "files w1 = files bucket_world"
    using s by (rule process_song_data_tables)
  have logs: "logs_df ''s3a://udacity-dend/'' w1 = [play_ann, visit_home]"
    unfolding logs_df_def f1
    by (simp add: glob_lookup_def glob_path_def bucket_world_def components_def)
  have "\<exists>w'. process_log_data utc ''s3a://udacity-dend/'' '''' w1 = Inr w'"
    unfolding process_log_data_Inr
    by (simp add: logs c1 c2 select_time_def sample_pages time_of_play_ann bind_def)
  then show ?thesis using s unfolding main_Inr by blast
qed

text \<open>
  C2. The claim has a second run of \<^verbatim>\<open>main\<close> on the same inputs succeed. Every run that
  succeeds leaves the table \<^verbatim>\<open>songs\<close> in the catalog, nothing in \<^verbatim>\<open>main\<close> drops it, and
  \<^verbatim>\<open>CREATE TABLE songs AS ...\<close> of the next run raises: after a run that succeeded, the next
  run raises \<open>TableAlreadyExists ''songs''\<close>.
\<close>

theorem main_second_run_raises:
  assumes "main tz w = Inr w'"
  shows "main tz w' = Inl (TableAlreadyExists ''songs'')
         \<and> rerun (main tz) w = Inl (TableAlreadyExists ''songs'')"
proof -
  have "process_song_data ''s3a://udacity-dend/'' '''' w' = Inl (TableAlreadyExists ''songs'')"
    using main_leaves_songs[OF assms] by (rule process_song_data_taken)
  then have "main tz w' = Inl (TableAlreadyExists ''songs'')"
    by (simp add: main_def Let_def bind_Inl)
  then show ?thesis using assms by (simp add: rerun_def bind_Inr)
qed

theorem main_second_run_raises_witness:
  "table_of ''songs'' (main utc bucket_world) = Some (Songs [songs_of song_muse])
   \<and> rerun (main utc) bucket_world = Inl (TableAlreadyExists ''songs'')"
proof -
  obtain w' where run: "main utc bucket_world = Inr w'"
    using bucket_first_run by blast
  then obtain w1 where
    s: "process_song_data ''s3a://udacity-dend/'' '''' bucket_world = Inr w1"
    and l: "process_log_data utc ''s3a://udacity-dend/'' '''' w1 = Inr w'"
    unfolding main_Inr by blast
  have "catalog w1 ''songs'' = Some (Songs [songs_of song_muse])"
    using process_song_data_tables(4)[OF s] by (simp add: bucket_songs)
  moreover have "catalog w' ''songs'' = catalog w1 ''songs''"
    using l by (rule process_log_data_frame)
  ultimately show ?thesis
    using main_second_run_raises[OF run] by (simp add: run table_of_def)
qed

section \<open>Which files are read\<close>

lemma split_slash_not_Nil: "split_slash p \<noteq> []"
  by (induction p) (auto split: list.splits)

lemma split_slash_append:
  "split_slash (a @ CHR ''/'' # b) = split_slash a @ split_slash b"
proof (induction a)
  case Nil
  then show ?case by simp
next
  case (Cons x xs)
  obtain c cs where xs: "split_slash xs = c # cs"
    using split_slash_not_Nil[of xs] by (cases "split_slash xs") auto
  show ?case using Cons.IH xs by simp
qed

lemma components_append:
  "components (a @ CHR ''/'' # b) = components a @ components b"
  by (simp add: components_def split_slash_append)

lemma split_slash_chars: "c \<in> set (split_slash p) \<Longrightarrow> set c \<subseteq> set p"
proof (induction p arbitrary: c)
  case Nil
  then show ?case by simp
next
  case (Cons x xs)
  obtain d ds where xs: "split_slash xs = d # ds"
    using split_slash_not_Nil[of xs] by (cases "split_slash xs") auto
  have "set d \<subseteq> set xs" and "\<And>e. e \<in> set ds \<Longrightarrow> set e \<subseteq> set xs"
    using Cons.IH xs by auto
  then show ?case using Cons.prems xs by (auto split: if_splits)
qed

lemma components_chars: "c \<in> set (components p) \<Longrightarrow> set c \<subseteq> set p"
  using split_slash_chars by (auto simp: components_def)

lemma glob_literal: "CHR ''*'' \<notin> set p \<Longrightarrow> glob p n \<longleftrightarrow> p = n"
  by (induction p n rule: glob.induct) auto

lemma glob_star: "CHR ''*'' \<notin> set p \<Longrightarrow> glob (CHR ''*'' # p) n \<longleftrightarrow> suffix p n"
proof (induction n)
  case Nil
  then show ?case by (auto simp: glob_literal)
next
  case (Cons c cs)
  then show ?case by (auto simp: glob_literal suffix_Cons)
qed

lemma glob_star_json: "glob ''*.json'' n \<longleftrightarrow> suffix ''.json'' n"
  using glob_star[of "''.json''" n] by simp

lemma list_all2_glob_literal:
  "\<forall>c \<in> set ps. CHR ''*'' \<notin> set c \<Longrightarrow> list_all2 glob ps cs \<longleftrightarrow> cs = ps"
proof (induction ps arbitrary: cs)
  case Nil
  then show ?case by auto
next
  case (Cons p ps)
  then show ?case by (cases cs) (auto simp: glob_literal)
qed

lemma logs_glob_path:
  assumes "CHR ''*'' \<notin> set base"
  shows "glob_path ((base @ ''/'') @ ''/logs/*.json'') cs \<longleftrightarrow>
           (\<exists>name. suffix ''.json'' name \<and> cs = components base @ [''logs'', name])"
proof -
  have pat: "components ((base @ ''/'') @ ''/logs/*.json'')
      = components base @ [''logs'', ''*.json'']"
    using components_append[of base "''/logs/*.json''"] by (simp add: components_def)
  have lit: "\<forall>c \<in> set (components base). CHR ''*'' \<notin> set c"
    using assms components_chars by blast
  have "list_all2 glob (components base @ [''logs'', ''*.json'']) cs \<longleftrightarrow>
      (\<exists>us vs. cs = us @ vs \<and> us = components base \<and> list_all2 glob [''logs'', ''*.json''] vs)"
  proof
    assume "list_all2 glob (components base @ [''logs'', ''*.json'']) cs"
    then obtain us vs where "cs = us @ vs" "list_all2 glob (components base) us"
      "list_all2 glob [''logs'', ''*.json''] vs"
      unfolding list_all2_append1 by blast
    then show "\<exists>us vs. cs = us @ vs \<and> us = components base
        \<and> list_all2 glob [''logs'', ''*.json''] vs"
      using lit by (simp add: list_all2_glob_literal)
  next
    assume "\<exists>us vs. cs = us @ vs \<and> us = components base
        \<and> list_all2 glob [''logs'', ''*.json''] vs"
    then obtain vs where cs: "cs = components base @ vs"
      and vs: "list_all2 glob [''logs'', ''*.json''] vs"
      by blast
    have "list_all2 glob (components base) (components base)"
      using lit by (simp add: list_all2_glob_literal)
    then show "list_all2 glob (components base @ [''logs'', ''*.json'']) cs"
      unfolding cs using vs by (rule list_all2_appendI)
  qed
  also have "\<dots> \<longleftrightarrow> (\<exists>name. suffix ''.json'' name \<and> cs = components base @ [''logs'', name])"
    by (auto simp: list_all2_Cons1 glob_star_json glob_literal)
  finally show ?thesis unfolding glob_path_def pat .
qed

lemma songs_path_components:
  "components ((base @ ''/'') @ ''song_data'') = components base @ [''song_data'']"
  using components_append[of base "''song_data''"] by (simp add: components_def)

lemma in_matched_directory:
  "cs \<noteq> [] \<and> glob_path pattern (butlast cs) \<longleftrightarrow>
     (\<exists>dir child. cs = dir @ [child] \<and> glob_path pattern dir)"
proof
  assume "cs \<noteq> [] \<and> glob_path pattern (butlast cs)"
  then have "cs = butlast cs @ [last cs] \<and> glob_path pattern (butlast cs)" by simp
  then show "\<exists>dir child. cs = dir @ [child] \<and> glob_path pattern dir" by blast
next
  assume "\<exists>dir child. cs = dir @ [child] \<and> glob_path pattern dir"
  then show "cs \<noteq> [] \<and> glob_path pattern (butlast cs)" by auto
qed

lemma logs_file_matched:
  assumes "CHR ''*'' \<notin> set base"
  shows "(glob_path ((base @ ''/'') @ ''/logs/*.json'') cs
          \<or> (cs \<noteq> [] \<and> glob_path ((base @ ''/'') @ ''/logs/*.json'') (butlast cs)))
     \<longleftrightarrow> (\<exists>name. suffix ''.json'' name \<and>
           (cs = components base @ [''logs'', name]
            \<or> (\<exists>child. cs = components base @ [''logs'', name, child])))"
proof -
  have "(cs \<noteq> [] \<and> glob_path ((base @ ''/'') @ ''/logs/*.json'') (butlast cs))
      \<longleftrightarrow> (\<exists>dir child. cs = dir @ [child]
             \<and> glob_path ((base @ ''/'') @ ''/logs/*.json'') dir)"
    by (rule in_matched_directory)
  also have "\<dots> \<longleftrightarrow> (\<exists>dir child. cs = dir @ [child]
             \<and> (\<exists>name. suffix ''.json'' name \<and> dir = components base @ [''logs'', name]))"
    unfolding logs_glob_path[OF assms] ..
  also have "\<dots> \<longleftrightarrow> (\<exists>name child. suffix ''.json'' name
             \<and> cs = components base @ [''logs'', name, child])"
    by auto
  finally have "(cs \<noteq> [] \<and> glob_path ((base @ ''/'') @ ''/logs/*.json'') (butlast cs))
      \<longleftrightarrow> (\<exists>name child. suffix ''.json'' name
             \<and> cs = components base @ [''logs'', name, child])" .
  then show ?thesis
    unfolding logs_glob_path[OF assms] by blast
qed

lemma logs_lookup:
  assumes "CHR ''*'' \<notin> set base"
  shows "glob_lookup fs ((base @ ''/'') @ ''/logs/*.json'')
     = filter (\<lambda>f. \<exists>name. suffix ''.json'' name \<and>
           (components (fst f) = components base @ [''logs'', name]
            \<or> (\<exists>child. components (fst f) = components base @ [''logs'', name, child]))) fs"
  unfolding glob_lookup_def Let_def logs_file_matched[OF assms] ..

lemma songs_lookup:
  "recursive_lookup fs ((base @ ''/'') @ ''song_data'')
     = filter (\<lambda>f. prefix (components base @ [''song_data'']) (components (fst f))) fs"
  unfolding recursive_lookup_def songs_path_components ..

text \<open>
  C7, counterexample. The claim has no file of a subdirectory of \<^verbatim>\<open>logs/\<close> read. The
  pattern \<^verbatim>\<open>logs/*.json\<close> also matches a directory whose name ends in \<^verbatim>\<open>.json\<close>, and the
  files directly in a matched directory are read: the record of
  \<^verbatim>\<open>data/logs/2018-11.json/part-00000.json\<close> is in the view.
\<close>

theorem logs_subdirectory_counterexample:
  "map fst (files nested_world) = [''data/logs/2018-11.json/part-00000.json'']
   \<and> plain_store (files nested_world)
   \<and> table_of ''logs_json'' (process_log_data utc ''data/'' ''out/'' nested_world)
       = Some (LogsJson [play_ann])"
proof -
  obtain w' where run: "process_log_data utc ''data/'' ''out/'' nested_world = Inr w'"
    using nested_run by blast
  from run have "catalog w' ''logs_json'' = Some (LogsJson (logs_df ''data/'' nested_world))"
    by (rule process_log_data_tables)
  moreover have "plain_store (files nested_world)"
    by (simp add: plain_store_def plain_name_def nested_world_def components_def
        suffix_to_prefix)
  ultimately show ?thesis
    by (simp add: run table_of_def nested_logs) (simp add: nested_world_def)
qed

text \<open>
  C7, amended. Take \<^verbatim>\<open>input_data\<close> = \<open>base/\<close> with no pattern character in \<open>base\<close>, and a
  store of plain names (none starts with \<^verbatim>\<open>_\<close> or \<^verbatim>\<open>.\<close>, ends in \<^verbatim>\<open>._COPYING_\<close> or
  contains \<^verbatim>\<open>=\<close>). The song transformer reads every file below \<^verbatim>\<open>base/song_data\<close>, at any
  depth. The log transformer reads the files directly in \<^verbatim>\<open>base/logs\<close> whose name ends in
  \<^verbatim>\<open>.json\<close>, and the files directly in a directory of \<^verbatim>\<open>base/logs\<close> whose name ends in
  \<^verbatim>\<open>.json\<close>; it reads no other file, so none in a subdirectory of another name and none
  two levels down.
\<close>

theorem file_discovery:
  assumes "set base \<inter> glob_meta = {}" and "plain_store (files w)"
  shows "(process_song_data (base @ ''/'') out w = Inr w1 \<longrightarrow>
            catalog w1 ''songs_json''
            = Some (SongsJson (concat (map song_records (map snd
                (filter (\<lambda>f. prefix (components base @ [''song_data'']) (components (fst f)))
                   (files w)))))))
         \<and> (process_log_data tz (base @ ''/'') out w = Inr w2 \<longrightarrow>
            catalog w2 ''logs_json''
            = Some (LogsJson (concat (map log_records (map snd
                (filter (\<lambda>f. \<exists>name. suffix ''.json'' name \<and>
                     (components (fst f) = components base @ [''logs'', name]
                      \<or> (\<exists>child. components (fst f)
                                    = components base @ [''logs'', name, child])))
                   (files w)))))))"
proof (intro conjI impI)
  assume "process_song_data (base @ ''/'') out w = Inr w1"
  then have "catalog w1 ''songs_json'' = Some (SongsJson (songs_df (base @ ''/'') w))"
    by (rule process_song_data_tables)
  then show "catalog w1 ''songs_json''
      = Some (SongsJson (concat (map song_records (map snd
          (filter (\<lambda>f. prefix (components base @ [''song_data'']) (components (fst f)))
             (files w))))))"
    unfolding songs_df_def songs_lookup .
next
  have star: "CHR ''*'' \<notin> set base"
    using assms(1) by (auto simp: glob_meta_def)
  assume "process_log_data tz (base @ ''/'') out w = Inr w2"
  then have "catalog w2 ''logs_json'' = Some (LogsJson (logs_df (base @ ''/'') w))"
    by (rule process_log_data_tables)
  then show "catalog w2 ''logs_json''
      = Some (LogsJson (concat (map log_records (map snd
          (filter (\<lambda>f. \<exists>name. suffix ''.json'' name \<and>
               (components (fst f) = components base @ [''logs'', name]
                \<or> (\<exists>child. components (fst f)
                              = components base @ [''logs'', name, child])))
             (files w))))))"
    unfolding logs_df_def logs_lookup[OF star] .
qed

theorem file_discovery_witness:
  "set ''data'' \<inter> glob_meta = {}
   \<and> plain_store (files loaded_world)
   \<and> map fst (files loaded_world)
       = [''data/song_data/A/B/TRAAAAW128F429D538.json'', ''data/logs/2018-11-03-events.json'']
   \<and> table_of ''songs_json'' (process_song_data (''data'' @ ''/'') ''out/'' loaded_world)
       = Some (SongsJson [song_muse, song_anon])
   \<and> table_of ''logs_json'' (process_log_data utc (''data'' @ ''/'') ''out/'' loaded_world)
       = Some (LogsJson [play_ann, play_bob, visit_home, play_unnamed])"
proof -
  have meta: "set ''data'' \<inter> glob_meta = {}" by (simp add: glob_meta_def)
  have comps: "components ''data'' = [''data'']"
    "components ''data/song_data/A/B/TRAAAAW128F429D538.json''
       = [''data'', ''song_data'', ''A'', ''B'', ''TRAAAAW128F429D538.json'']"
    "components ''data/logs/2018-11-03-events.json''
       = [''data'', ''logs'', ''2018-11-03-events.json'']"
    by (simp_all add: components_def)
  have plain: "plain_store (files loaded_world)"
    by (simp add: plain_store_def plain_name_def loaded_world_def comps suffix_to_prefix)
  have songs: "songs_df ''data/'' loaded_world = [song_muse, song_anon]"
    by (simp add: songs_df_def recursive_lookup_def song_data_pattern loaded_world_def
        components_def)
  obtain w1 where s: "process_song_data (''data'' @ ''/'') ''out/'' loaded_world = Inr w1"
    unfolding process_song_data_Inr by (simp add: songs) (simp add: loaded_world_def)
  obtain w2 where l: "process_log_data utc (''data'' @ ''/'') ''out/'' loaded_world = Inr w2"
    using loaded_run by auto
  have name: "suffix ''.json'' ''2018-11-03-events.json''"
    by (simp add: suffix_to_prefix)
  from file_discovery[OF meta plain, of "''out/''" w1 utc w2] s l
  have "catalog w1 ''songs_json'' = Some (SongsJson [song_muse, song_anon])"
    and "catalog w2 ''logs_json''
      = Some (LogsJson [play_ann, play_bob, visit_home, play_unnamed])"
    using name by (simp_all add: loaded_world_def comps)
  then show ?thesis
    using s l meta plain by (simp add: table_of_def loaded_world_def)
qed

end
